theory Spec2Isabelle
  imports Complex_Main
begin

section \<open>Tables\<close>

text \<open>
  The driver notebook works on pandas data frames.  A frame is modelled by its column
  labels and its rows; a row carries its index label and maps a column label to the
  value stored there.  A value is a number or missing (\<open>None\<close>, pandas' NaN).
\<close>

type_synonym val = "real option"

type_synonym row = "string \<Rightarrow> val"

record frame =
  columns :: "string list"
  rows :: "(nat \<times> row) list"

datatype error =
    SyntaxError
  | KeyError "string list"
  | EmptySubset string string
  | AssertionError

text \<open>\<open>df[mask]\<close>: the rows where the mask holds, index labels kept.\<close>

definition getitem_mask :: "frame \<Rightarrow> (row \<Rightarrow> bool) \<Rightarrow> frame" where
  "getitem_mask f P = f\<lparr>rows := filter (\<lambda>ir. P (snd ir)) (rows f)\<rparr>"

text \<open>\<open>df[[c1, c2, ...]]\<close>: the listed columns only; a label that is not a column
  raises KeyError.\<close>

definition getitem_cols :: "frame \<Rightarrow> string list \<Rightarrow> error + frame" where
  "getitem_cols f cs =
     (case filter (\<lambda>c. c \<notin> set (columns f)) cs of
        [] \<Rightarrow> Inr \<lparr>columns = cs,
                   rows = map (\<lambda>ir. (fst ir, \<lambda>c. if c \<in> set cs then snd ir c else None))
                            (rows f)\<rparr>
      | m # ms \<Rightarrow> Inl (KeyError (m # ms)))"

text \<open>\<open>df.dropna()\<close>: the rows with a value in every column.\<close>

definition dropna :: "frame \<Rightarrow> frame" where
  "dropna f = f\<lparr>rows := filter (\<lambda>ir. list_all (\<lambda>c. snd ir c \<noteq> None) (columns f)) (rows f)\<rparr>"

text \<open>\<open>df.reset_index(drop=True)\<close>: the index labels become 0, 1, 2, ...\<close>

definition reset_index :: "frame \<Rightarrow> frame" where
  "reset_index f = f\<lparr>rows := zip [0..<length (rows f)] (map snd (rows f))\<rparr>"

text \<open>\<open>df[c] = v\<close>: a column is appended, or replaced when the label exists.\<close>

definition add_column :: "frame \<Rightarrow> string \<Rightarrow> (row \<Rightarrow> val) \<Rightarrow> frame" where
  "add_column f c v =
     \<lparr>columns = (if c \<in> set (columns f) then columns f else columns f @ [c]),
      rows = map (\<lambda>ir. (fst ir, (snd ir)(c := v (snd ir)))) (rows f)\<rparr>"

text \<open>\<open>len(df)\<close> and the index of a frame.\<close>

definition len :: "frame \<Rightarrow> nat" where
  "len f = length (rows f)"

definition index :: "frame \<Rightarrow> nat list" where
  "index f = map fst (rows f)"

text \<open>\<open>df[df[c].notnull()].reset_index(drop=True)\<close>, the per-outcome frame of the driver
  (source lines 97 to 99).\<close>

definition outcome_frame :: "frame \<Rightarrow> string \<Rightarrow> error + frame" where
  "outcome_frame df outcome =
     (if outcome \<in> set (columns df)
      then Inr (reset_index (getitem_mask df (\<lambda>r. r outcome \<noteq> None)))
      else Inl (KeyError [outcome]))"

text \<open>The frame handed to \<open>fns.compare_biomarkers\<close> (source lines 155 to 158 and the
  five blocks after it): with \<open>subset\<close> the rows of \<open>df\<close> complete in every biomarker,
  every ratio, the reference protein and the outcome; without it a copy of the
  per-outcome frame.\<close>

definition stage_input ::
  "bool \<Rightarrow> frame \<Rightarrow> frame \<Rightarrow> string list \<Rightarrow> string list \<Rightarrow> string \<Rightarrow> string \<Rightarrow> error + frame" where
  "stage_input subset_flag df df_outcome biomarkers normalized refprot outcome =
     (if subset_flag
      then (case getitem_cols df (biomarkers @ normalized @ [refprot, outcome]) of
              Inl e \<Rightarrow> Inl e
            | Inr sel \<Rightarrow> Inr (reset_index (dropna sel)))
      else Inr df_outcome)"

section \<open>The list literals of the configuration cell\<close>

text \<open>
  A notebook cell is compiled as a whole before any of its statements runs.  The two
  biomarker lists of the configuration cell are list displays of string literals; the
  tokens of such a display and Python's rule for it (elements separated by one comma,
  an optional trailing comma, adjacent string literals concatenated) are modelled here.
\<close>

datatype token = LSQB | RSQB | COMMA | STRING string

datatype expect = Element | Separator string

fun star_named_expressions :: "expect \<Rightarrow> token list \<Rightarrow> string list \<Rightarrow> string list option" where
  "star_named_expressions Element (STRING s # ts) acc = star_named_expressions (Separator s) ts acc"
| "star_named_expressions Element [RSQB] acc = Some (rev acc)"
| "star_named_expressions Element ts acc = None"
| "star_named_expressions (Separator s) (STRING t # ts) acc =
     star_named_expressions (Separator (s @ t)) ts acc"
| "star_named_expressions (Separator s) (COMMA # ts) acc =
     star_named_expressions Element ts (s # acc)"
| "star_named_expressions (Separator s) [RSQB] acc = Some (rev (s # acc))"
| "star_named_expressions (Separator s) ts acc = None"

definition list_display :: "token list \<Rightarrow> string list option" where
  "list_display ts =
     (case ts of LSQB # rest \<Rightarrow> star_named_expressions Element rest [] | _ \<Rightarrow> None)"

section \<open>The notebook\<close>

text \<open>
  What a user edits before a run (the README asks for it): the outcome columns, the two
  biomarker list literals, the reference proteins, \<open>n_iter\<close> and \<open>subset\<close>.
\<close>

record source =
  tau_pet_braak_I_IV :: string
  tau_pet_braak_V_VI :: string
  amyloid_pet :: string
  csf_biomarkers_lit :: "token list"
  plasma_biomarkers_lit :: "token list"
  csf_refprot :: string
  plasma_refprot :: string
  n_iter :: nat
  subset_flag :: bool

text \<open>The notebook as it is in the repository (source lines 68 to 90, 125 and 138).\<close>

definition shipped :: source where
  "shipped =
     \<lparr>tau_pet_braak_I_IV = ''tnic_cho_com_I_IV'',
      tau_pet_braak_V_VI = ''tnic_cho_com_V_VI'',
      amyloid_pet = ''fnc_ber_com_composite'',
      csf_biomarkers_lit =
        [LSQB, STRING ''CSF_ptau217_Lilly'', COMMA,
         STRING ''CSF_ptau181_Lilly'', COMMA, COMMA,
         STRING ''CSF_MTBRtau243_WashU'', COMMA,
         STRING ''CSF_ptau205_WashU'', COMMA,
         STRING ''CSF_Ab42_Elecsys'', COMMA,
         STRING ''CSF_SNAP25_UGOT'', COMMA,
         STRING ''CSF_Neurogranin_NTK'',
         RSQB],
      plasma_biomarkers_lit =
        [LSQB, STRING ''Plasma_ptau217_Lilly'', COMMA,
         STRING ''Plasma_ptau181_Lilly'', COMMA,
         STRING ''Plasma_ptau205_WashU'', COMMA,
         STRING ''Plasma_eMTBRtau243_WashU'', COMMA,
         STRING ''Plasma_Ab42_WashU'', RSQB],
      csf_refprot = ''CSF_Ab40_Elecsys'',
      plasma_refprot = ''Plasma_Ab40_WashU'',
      n_iter = 10000,
      subset_flag = False\<rparr>"

text \<open>
  The module \<open>Fns_refprot_normalization\<close> is not among the sources.  The driver is
  modelled over any three functions of its signatures; \<open>'g\<close> is the state of the random
  number generator that the bootstrap draws from, \<open>'rs\<close> a result set of the model
  comparison and \<open>'ps\<close> a result set with its p-values.
\<close>

record ('g, 'rs, 'ps) fns =
  fn_create_biomarker_ratios :: "frame \<Rightarrow> string list \<Rightarrow> string \<Rightarrow> error + frame \<times> string list"
  fn_compare_biomarkers ::
    "'g \<Rightarrow> frame \<Rightarrow> string list \<Rightarrow> string list \<Rightarrow> string \<Rightarrow> string \<Rightarrow> nat \<Rightarrow> error + 'rs \<times> 'g"
  fn_get_pvalues :: "'rs list \<Rightarrow> string list \<Rightarrow> nat \<Rightarrow> error + 'ps list"

datatype panel = CSF | Plasma

text \<open>What a run does that can be seen from outside, in order: the lines it prints, the
  calls into the function module, and the pickle file it writes.\<close>

datatype 'ps event =
    Print string
  | Ratios panel
  | Compare panel string
  | PValues panel
  | PickleDump string "'ps list"

datatype cell_id = Load | Config | Models | Save

text \<open>A computation of the notebook: the events so far, and an error or a value.  An
  error ends the run; the events before it stay.\<close>

type_synonym ('ps, 'e, 'a) nb = "'ps event list \<times> ('e + 'a)"

definition nb_return :: "'a \<Rightarrow> ('ps, 'e, 'a) nb" where
  "nb_return a = ([], Inr a)"

definition nb_emit :: "'ps event \<Rightarrow> ('ps, 'e, unit) nb" where
  "nb_emit e = ([e], Inr ())"

definition nb_lift :: "'e + 'a \<Rightarrow> ('ps, 'e, 'a) nb" where
  "nb_lift r = ([], r)"

definition nb_bind :: "('ps, 'e, 'a) nb \<Rightarrow> ('a \<Rightarrow> ('ps, 'e, 'b) nb) \<Rightarrow> ('ps, 'e, 'b) nb" where
  "nb_bind m k =
     (case m of
        (ev, Inl e) \<Rightarrow> (ev, Inl e)
      | (ev, Inr a) \<Rightarrow> (case k a of (ev', r) \<Rightarrow> (ev @ ev', r)))"

definition at_cell :: "cell_id \<Rightarrow> ('ps, error, 'a) nb \<Rightarrow> ('ps, cell_id \<times> error, 'a) nb" where
  "at_cell c m = (case m of (ev, Inl e) \<Rightarrow> (ev, Inl (c, e)) | (ev, Inr a) \<Rightarrow> (ev, Inr a))"

text \<open>\<open>str(n)\<close> for a length.\<close>

fun str_nat :: "nat \<Rightarrow> string" where
  "str_nat n =
     (if n < 10 then [char_of (48 + n)]
      else str_nat (n div 10) @ [char_of (48 + n mod 10)])"

declare str_nat.simps [simp del]

text \<open>The names the notebook has bound after the configuration cell.\<close>

record env =
  df :: frame
  csf_biomarkers :: "string list"
  plasma_biomarkers :: "string list"
  csf_biomarkers_normalized :: "string list"
  plasma_biomarkers_normalized :: "string list"
  df_tau_pet_braak_I_IV :: frame
  df_tau_pet_braak_V_VI :: frame
  df_amyloid_pet :: frame

text \<open>Source line 57, \<open>df = df[df['Visit'] == 0]\<close>, on the table that \<open>read_csv\<close> gave.
  The path and the file name of lines 52 and 53 are left empty in the repository for the
  user to fill in; the table they name is the input of a run.\<close>

definition load_cell :: "frame \<Rightarrow> error + frame" where
  "load_cell raw =
     (if ''Visit'' \<in> set (columns raw)
      then Inr (getitem_mask raw (\<lambda>r. r ''Visit'' = Some 0))
      else Inl (KeyError [''Visit'']))"

text \<open>Source lines 93 to 103, with the two lists already evaluated.\<close>

definition config_body ::
  "source \<Rightarrow> ('g, 'rs, 'ps) fns \<Rightarrow> string list \<Rightarrow> string list \<Rightarrow> frame \<Rightarrow> ('ps, error, env) nb" where
  "config_body src F csf plasma df0 =
     nb_bind (nb_emit (Ratios CSF)) (\<lambda>_.
     nb_bind (nb_lift (fn_create_biomarker_ratios F df0 csf (csf_refprot src))) (\<lambda>(df1, csf_norm).
     nb_bind (nb_emit (Ratios Plasma)) (\<lambda>_.
     nb_bind (nb_lift (fn_create_biomarker_ratios F df1 plasma (plasma_refprot src))) (\<lambda>(df2, plasma_norm).
     nb_bind (nb_lift (outcome_frame df2 (tau_pet_braak_I_IV src))) (\<lambda>d1.
     nb_bind (nb_lift (outcome_frame df2 (tau_pet_braak_V_VI src))) (\<lambda>d2.
     nb_bind (nb_lift (outcome_frame df2 (amyloid_pet src))) (\<lambda>d3.
     nb_bind (nb_emit (Print (''Length of df for tau PET braak I-IV: '' @ str_nat (len d1)))) (\<lambda>_.
     nb_bind (nb_emit (Print (''Length of df for tau PET braak V-VI: '' @ str_nat (len d2)))) (\<lambda>_.
     nb_bind (nb_emit (Print (''Length of df for amyloid PET: '' @ str_nat (len d3)))) (\<lambda>_.
     nb_return
       \<lparr>df = df2, csf_biomarkers = csf, plasma_biomarkers = plasma,
        csf_biomarkers_normalized = csf_norm, plasma_biomarkers_normalized = plasma_norm,
        df_tau_pet_braak_I_IV = d1, df_tau_pet_braak_V_VI = d2, df_amyloid_pet = d3\<rparr>))))))))))"

text \<open>The configuration cell: it is compiled first, and a list display that does not
  parse is a SyntaxError before anything of the cell has run.\<close>

definition config_cell :: "source \<Rightarrow> ('g, 'rs, 'ps) fns \<Rightarrow> frame \<Rightarrow> ('ps, error, env) nb" where
  "config_cell src F df0 =
     (case list_display (csf_biomarkers_lit src) of
        None \<Rightarrow> nb_lift (Inl SyntaxError)
      | Some csf \<Rightarrow>
          (case list_display (plasma_biomarkers_lit src) of
             None \<Rightarrow> nb_lift (Inl SyntaxError)
           | Some plasma \<Rightarrow> config_body src F csf plasma df0))"

text \<open>One of the six blocks of the model cell (for example source lines 155 to 160):
  choose the frame, call \<open>fns.compare_biomarkers\<close>, print.\<close>

definition compare_block ::
  "source \<Rightarrow> ('g, 'rs, 'ps) fns \<Rightarrow> env \<Rightarrow> panel \<Rightarrow> frame \<Rightarrow> string \<Rightarrow> string \<Rightarrow> 'g
     \<Rightarrow> ('ps, error, 'rs \<times> 'g) nb" where
  "compare_block src F e p df_outcome outcome done_msg g =
     (let biomarkers = (case p of CSF \<Rightarrow> csf_biomarkers e | Plasma \<Rightarrow> plasma_biomarkers e);
          normalized = (case p of CSF \<Rightarrow> csf_biomarkers_normalized e
                        | Plasma \<Rightarrow> plasma_biomarkers_normalized e);
          refprot = (case p of CSF \<Rightarrow> csf_refprot src | Plasma \<Rightarrow> plasma_refprot src)
      in
      nb_bind (nb_lift (stage_input (subset_flag src) (df e) df_outcome biomarkers normalized
                          refprot outcome)) (\<lambda>df_p.
      nb_bind (nb_emit (Compare p outcome)) (\<lambda>_.
      nb_bind (nb_lift (fn_compare_biomarkers F g df_p biomarkers normalized refprot outcome
                          (n_iter src))) (\<lambda>(res, g').
      nb_bind (nb_emit (Print done_msg)) (\<lambda>_.
      nb_return (res, g'))))))"

text \<open>The three blocks of one panel and its result list (source lines 154 to 179 and 184
  to 209).\<close>

definition panel_blocks ::
  "source \<Rightarrow> ('g, 'rs, 'ps) fns \<Rightarrow> env \<Rightarrow> panel \<Rightarrow> string \<Rightarrow> 'g \<Rightarrow> ('ps, error, 'rs list \<times> 'g) nb" where
  "panel_blocks src F e p name g =
     nb_bind (compare_block src F e p (df_tau_pet_braak_I_IV e) (tau_pet_braak_I_IV src)
                (''Tau pet braak I-IV done for '' @ name) g) (\<lambda>(r1, g1).
     nb_bind (compare_block src F e p (df_tau_pet_braak_V_VI e) (tau_pet_braak_V_VI src)
                (''Tau pet braak V-VI done for '' @ name) g1) (\<lambda>(r2, g2).
     nb_bind (compare_block src F e p (df_amyloid_pet e) (amyloid_pet src)
                (''Amyloid pet done for '' @ name) g2) (\<lambda>(r3, g3).
     nb_return ([r1, r2, r3], g3))))"

definition models_cell ::
  "source \<Rightarrow> ('g, 'rs, 'ps) fns \<Rightarrow> env \<Rightarrow> 'g \<Rightarrow> ('ps, error, 'rs list \<times> 'rs list) nb" where
  "models_cell src F e g =
     nb_bind (panel_blocks src F e CSF ''CSF'' g) (\<lambda>(all_res_csf, g1).
     nb_bind (panel_blocks src F e Plasma ''plasma'' g1) (\<lambda>(all_res_plasma, g2).
     nb_return (all_res_csf, all_res_plasma)))"

text \<open>Source lines 220 to 227: the p-values of both panels, then one pickle file.\<close>

definition save_cell ::
  "source \<Rightarrow> ('g, 'rs, 'ps) fns \<Rightarrow> env \<Rightarrow> 'rs list \<Rightarrow> 'rs list \<Rightarrow> ('ps, error, unit) nb" where
  "save_cell src F e all_res_csf all_res_plasma =
     nb_bind (nb_emit (PValues CSF)) (\<lambda>_.
     nb_bind (nb_lift (fn_get_pvalues F all_res_csf (csf_biomarkers_normalized e) (n_iter src))) (\<lambda>pc.
     nb_bind (nb_emit (PValues Plasma)) (\<lambda>_.
     nb_bind (nb_lift (fn_get_pvalues F all_res_plasma (plasma_biomarkers_normalized e) (n_iter src))) (\<lambda>pp.
     nb_emit (PickleDump ''linreg_results.pkl'' (pc @ pp))))))"

text \<open>Running the cells in order on the table read from the data file; the first cell
  that raises ends the run.  The import cell and the two cells that only assign \<open>n_iter\<close>
  and \<open>subset\<close> (their values are fields of \<open>source\<close>) have no part of their own.\<close>

definition run_notebook ::
  "source \<Rightarrow> ('g, 'rs, 'ps) fns \<Rightarrow> 'g \<Rightarrow> frame \<Rightarrow> ('ps, cell_id \<times> error, unit) nb" where
  "run_notebook src F g raw =
     nb_bind (at_cell Load (nb_lift (load_cell raw))) (\<lambda>df0.
     nb_bind (at_cell Config (config_cell src F df0)) (\<lambda>e.
     nb_bind (at_cell Models (models_cell src F e g)) (\<lambda>(all_res_csf, all_res_plasma).
     at_cell Save (save_cell src F e all_res_csf all_res_plasma))))"

text \<open>The events of a run other than printed lines.\<close>

fun is_print :: "'ps event \<Rightarrow> bool" where
  "is_print (Print s) = True"
| "is_print e = False"

definition calls :: "'ps event list \<Rightarrow> 'ps event list" where
  "calls ev = filter (\<lambda>e. \<not> is_print e) ev"

text \<open>
  To state what the driver hands to the function module: the module with an assertion
  put in front of \<open>compare_biomarkers\<close>, or in front of \<open>create_biomarker_ratios\<close>, that
  checks the table it is called with and raises when the check fails.  A run in which
  every table handed over passes the check is the same with and without the assertion.
\<close>

definition asserting :: "(frame \<Rightarrow> bool) \<Rightarrow> ('g, 'rs, 'ps) fns \<Rightarrow> ('g, 'rs, 'ps) fns" where
  "asserting P F =
     F\<lparr>fn_compare_biomarkers :=
         (\<lambda>g f bs ns ref out n.
            if P f then fn_compare_biomarkers F g f bs ns ref out n else Inl AssertionError)\<rparr>"

definition asserting_ratios :: "(frame \<Rightarrow> bool) \<Rightarrow> ('g, 'rs, 'ps) fns \<Rightarrow> ('g, 'rs, 'ps) fns" where
  "asserting_ratios P F =
     F\<lparr>fn_create_biomarker_ratios :=
         (\<lambda>f bs ref.
            if P f then fn_create_biomarker_ratios F f bs ref else Inl AssertionError)\<rparr>"

text \<open>The index of the frame is 0, 1, ..., n - 1.\<close>

definition index_reset :: "frame \<Rightarrow> bool" where
  "index_reset f = (index f = [0..<len f])"


text \<open>The frame \<open>f\<close> has the rows of \<open>d\<close>, under the same index labels and in the same
  order, as far as the listed columns go.\<close>

definition same_on :: "string list \<Rightarrow> frame \<Rightarrow> frame \<Rightarrow> bool" where
  "same_on cols d f =
     (index f = index d \<and>
      list_all2 (\<lambda>ir jr. list_all (\<lambda>c. snd jr c = snd ir c) cols) (rows d) (rows f))"


text \<open>The ratio construction of \<open>F\<close> returns the rows it is given, under the same index
  labels, with the columns of \<open>raw\<close> as they were (section 4.1 of the spec: original
  columns untouched).\<close>

definition untouched :: "frame \<Rightarrow> ('g, 'rs, 'ps) fns \<Rightarrow> bool" where
  "untouched raw F =
     (\<forall>f bs ref f' ns.
        fn_create_biomarker_ratios F f bs ref = Inr (f', ns) \<longrightarrow> same_on (columns raw) f f')"

section \<open>The function module, modelled from the specification\<close>

text \<open>
  The functions of \<open>Fns_refprot_normalization\<close> are called by the driver but are not
  among the sources.  Numbers are real numbers here; a missing or non-finite value
  (NaN) is \<open>None\<close>.
\<close>

subsection \<open>Ratio construction\<close>

text \<open>
  Modelled from the spec: the row-wise ratio of \<open>fns.create_biomarker_ratios\<close> (section
  4.1 and section 8): missing when the reference value is missing or not positive, and
  when the biomarker is missing; the quotient otherwise.
\<close>

definition ratio_val :: "val \<Rightarrow> val \<Rightarrow> val" where
  "ratio_val b r =
     (case r of
        None \<Rightarrow> None
      | Some d \<Rightarrow> if d \<le> 0 then None else (case b of None \<Rightarrow> None | Some x \<Rightarrow> Some (x / d)))"

text \<open>
  Modelled from the spec: \<open>fns.create_biomarker_ratios\<close> (section 4.1), which is missing
  from the sources.  It adds one ratio column per biomarker, in order, and returns the
  table with the list of the new labels; a biomarker or reference column that the table
  does not have is the fatal configuration error of section 7.  The spec does not say
  how a ratio column is labelled, so the labelling \<open>nm\<close> is a parameter.
\<close>

fun create_biomarker_ratios ::
  "(string \<Rightarrow> string \<Rightarrow> string) \<Rightarrow> frame \<Rightarrow> string list \<Rightarrow> string \<Rightarrow> error + frame \<times> string list" where
  "create_biomarker_ratios nm f [] refprot = Inr (f, [])"
| "create_biomarker_ratios nm f (b # bs) refprot =
     (if b \<notin> set (columns f) then Inl (KeyError [b])
      else if refprot \<notin> set (columns f) then Inl (KeyError [refprot])
      else (case create_biomarker_ratios nm
                   (add_column f (nm b refprot) (\<lambda>r. ratio_val (r b) (r refprot))) bs refprot of
              Inl e \<Rightarrow> Inl e
            | Inr (f', names) \<Rightarrow> Inr (f', nm b refprot # names)))"

subsection \<open>Model comparison and bootstrap\<close>

text \<open>Modelled from the spec: what a fit returns (section 3), the intercept and the
  slope, and \<open>R\<^sup>2\<close>; each is NaN when it is not defined.\<close>

record fit =
  coef :: "(real \<times> real) option"
  r2 :: val

text \<open>Modelled from the spec: the arithmetic mean that the sums of squares of section 4.3
  are taken about.\<close>

definition mean :: "real list \<Rightarrow> real" where
  "mean xs = sum_list xs / real (length xs)"

text \<open>
  Modelled from the spec: the univariate least-squares fit of section 4.3 with the
  sum-of-squares \<open>R\<^sup>2\<close>.  A sample with no variance in the predictor or in the outcome has
  no defined \<open>R\<^sup>2\<close>: the fit returns NaN for it and does not raise.  (The comparison
  never fits an empty sample: it raises before, see \<open>compare_one\<close>.)
\<close>

definition ols :: "(real \<times> real) list \<Rightarrow> fit" where
  "ols pts =
     (let mx = mean (map fst pts);
          my = mean (map snd pts);
          sxx = sum_list (map (\<lambda>p. (fst p - mx)\<^sup>2) pts);
          sxy = sum_list (map (\<lambda>p. (fst p - mx) * (snd p - my)) pts);
          syy = sum_list (map (\<lambda>p. (snd p - my)\<^sup>2) pts)
      in if sxx = 0 then \<lparr>coef = None, r2 = None\<rparr>
         else
           (let slope = sxy / sxx;
                intercept = my - slope * mx;
                ss_res = sum_list (map (\<lambda>p. (snd p - (intercept + slope * fst p))\<^sup>2) pts)
            in \<lparr>coef = Some (intercept, slope),
                r2 = (if syy = 0 then None else Some (1 - ss_res / syy))\<rparr>))"

text \<open>
  Modelled from the spec: one resample of section 4.3, \<open>k\<close> row positions below \<open>n\<close>
  drawn with replacement.  The random number generator is a parameter: \<open>nxt\<close> gives a
  number and the generator's new state; the position drawn is the number modulo \<open>n\<close>.
\<close>

fun draw :: "('g \<Rightarrow> nat \<times> 'g) \<Rightarrow> nat \<Rightarrow> nat \<Rightarrow> 'g \<Rightarrow> nat list \<times> 'g" where
  "draw nxt n 0 g = ([], g)"
| "draw nxt n (Suc k) g =
     (case nxt g of (w, g1) \<Rightarrow>
        (case draw nxt n k g1 of (idx, g2) \<Rightarrow> (w mod n # idx, g2)))"

text \<open>Modelled from the spec: the rows of a resample, by position (section 4.3).\<close>

definition resample :: "'a list \<Rightarrow> nat list \<Rightarrow> 'a list" where
  "resample pts idx = map (\<lambda>i. pts ! i) idx"

text \<open>
  Modelled from the spec: the bootstrap loop of section 4.3.  Each iteration draws one
  resample and refits both variants on it.
\<close>

fun bootstrap ::
  "('g \<Rightarrow> nat \<times> 'g) \<Rightarrow> (real \<times> real) list \<Rightarrow> (real \<times> real) list \<Rightarrow> nat \<Rightarrow> 'g
     \<Rightarrow> (val list \<times> val list) \<times> 'g" where
  "bootstrap nxt raw nrm 0 g = (([], []), g)"
| "bootstrap nxt raw nrm (Suc k) g =
     (case draw nxt (length raw) (length raw) g of (idx, g1) \<Rightarrow>
        (let a = r2 (ols (resample raw idx));
             b = r2 (ols (resample nrm idx))
         in case bootstrap nxt raw nrm k g1 of
              ((ra, rb), g2) \<Rightarrow> ((a # ra, b # rb), g2)))"

text \<open>Modelled from the spec: the result record of one biomarker (section 3 and section
  4.3).\<close>

record comparison =
  c_biomarker :: string
  c_normalized :: string
  c_outcome :: string
  n_obs :: nat
  fit_raw :: fit
  fit_norm :: fit
  boot_raw :: "val list"
  boot_norm :: "val list"

text \<open>Modelled from the spec: the rows on which a pair is fitted, those with the raw
  value, the ratio and the outcome all present, so that both variants see the same
  subjects (section 3).\<close>

definition complete_cases :: "frame \<Rightarrow> string \<Rightarrow> string \<Rightarrow> string \<Rightarrow> row list" where
  "complete_cases f b bn outcome =
     filter (\<lambda>r. r b \<noteq> None \<and> r bn \<noteq> None \<and> r outcome \<noteq> None) (map snd (rows f))"

text \<open>Modelled from the spec: the predictor and outcome values of complete rows.\<close>

definition points :: "row list \<Rightarrow> string \<Rightarrow> string \<Rightarrow> (real \<times> real) list" where
  "points rs x y = map (\<lambda>r. (the (r x), the (r y))) rs"

text \<open>
  Modelled from the spec: the comparison of one biomarker with its ratio (section 4.3).
  A column that the table lacks is fatal; so is a pair with no complete row (section 7).
\<close>

definition compare_one ::
  "('g \<Rightarrow> nat \<times> 'g) \<Rightarrow> frame \<Rightarrow> string \<Rightarrow> string \<Rightarrow> string \<Rightarrow> string \<Rightarrow> nat \<Rightarrow> 'g
     \<Rightarrow> error + comparison \<times> 'g" where
  "compare_one nxt f b bn refprot outcome n g =
     (case filter (\<lambda>c. c \<notin> set (columns f)) [b, bn, refprot, outcome] of
        m # ms \<Rightarrow> Inl (KeyError (m # ms))
      | [] \<Rightarrow>
          (let cc = complete_cases f b bn outcome;
               raw = points cc b outcome;
               nrm = points cc bn outcome
           in if cc = [] then Inl (EmptySubset outcome b)
              else (case bootstrap nxt raw nrm n g of
                      ((br, bn'), g') \<Rightarrow>
                        Inr (\<lparr>c_biomarker = b, c_normalized = bn, c_outcome = outcome,
                              n_obs = length cc,
                              fit_raw = ols raw, fit_norm = ols nrm,
                              boot_raw = br, boot_norm = bn'\<rparr>, g'))))"

text \<open>Modelled from the spec: the loop over the configured biomarkers (section 4.3); the
  first error ends it.\<close>

fun compare_loop ::
  "('g \<Rightarrow> nat \<times> 'g) \<Rightarrow> frame \<Rightarrow> (string \<times> string) list \<Rightarrow> string \<Rightarrow> string \<Rightarrow> nat \<Rightarrow> 'g
     \<Rightarrow> error + comparison list \<times> 'g" where
  "compare_loop nxt f [] refprot outcome n g = Inr ([], g)"
| "compare_loop nxt f (p # ps) refprot outcome n g =
     (case compare_one nxt f (fst p) (snd p) refprot outcome n g of
        Inl e \<Rightarrow> Inl e
      | Inr (r, g1) \<Rightarrow>
          (case compare_loop nxt f ps refprot outcome n g1 of
             Inl e \<Rightarrow> Inl e
           | Inr (rs, g2) \<Rightarrow> Inr (r # rs, g2)))"

text \<open>
  Modelled from the spec: \<open>fns.compare_biomarkers\<close> (section 4.3), which is missing from
  the sources; the arguments are those of the driver's call.
\<close>

definition compare_biomarkers ::
  "('g \<Rightarrow> nat \<times> 'g) \<Rightarrow> 'g \<Rightarrow> frame \<Rightarrow> string list \<Rightarrow> string list \<Rightarrow> string \<Rightarrow> string \<Rightarrow> nat
     \<Rightarrow> error + comparison list \<times> 'g" where
  "compare_biomarkers nxt g f biomarkers normalized refprot outcome n =
     compare_loop nxt f (zip biomarkers normalized) refprot outcome n g"

text \<open>
  To state what the bootstrap does: the index lists of \<open>k\<close> successive resamples of
  \<open>m\<close> rows, the generator's state after them, and the generator's state when the
  bootstrap of each pair of a comparison starts.
\<close>

fun draws :: "('g \<Rightarrow> nat \<times> 'g) \<Rightarrow> nat \<Rightarrow> nat \<Rightarrow> 'g \<Rightarrow> nat list list" where
  "draws nxt m 0 g = []"
| "draws nxt m (Suc k) g = (case draw nxt m m g of (idx, g1) \<Rightarrow> idx # draws nxt m k g1)"

fun after_draws :: "('g \<Rightarrow> nat \<times> 'g) \<Rightarrow> nat \<Rightarrow> nat \<Rightarrow> 'g \<Rightarrow> 'g" where
  "after_draws nxt m 0 g = g"
| "after_draws nxt m (Suc k) g = after_draws nxt m k (snd (draw nxt m m g))"

fun start_states ::
  "('g \<Rightarrow> nat \<times> 'g) \<Rightarrow> frame \<Rightarrow> (string \<times> string) list \<Rightarrow> string \<Rightarrow> nat \<Rightarrow> 'g \<Rightarrow> 'g list" where
  "start_states nxt f [] outcome n g = []"
| "start_states nxt f (p # ps) outcome n g =
     g # start_states nxt f ps outcome n
           (after_draws nxt (length (complete_cases f (fst p) (snd p) outcome)) n g)"

subsection \<open>P-values and the false-discovery-rate correction\<close>

text \<open>Modelled from the spec: the iterations that count (section 4.4), the first \<open>n\<close>
  pairs of bootstrap values without those where a value is not finite.\<close>

definition finite_pairs :: "nat \<Rightarrow> val list \<Rightarrow> val list \<Rightarrow> (real \<times> real) list" where
  "finite_pairs n nrm raw =
     List.map_filter
       (\<lambda>p. case p of (Some x, Some y) \<Rightarrow> Some (x, y) | _ \<Rightarrow> None)
       (take n (zip nrm raw))"

text \<open>
  Modelled from the spec: the empirical p-value of section 4.4, one more than the number
  of counted iterations where the normalized \<open>R\<^sup>2\<close> is at most the raw one, over one more
  than the number of counted iterations.
\<close>

definition empirical_p :: "nat \<Rightarrow> val list \<Rightarrow> val list \<Rightarrow> real" where
  "empirical_p n nrm raw =
     (let fp = finite_pairs n nrm raw
      in (1 + real (length (filter (\<lambda>p. fst p \<le> snd p) fp))) / (real (length fp) + 1))"

text \<open>Modelled from the spec: the running minimum from the right, a step of the
  correction of section 4.4.\<close>

fun cummin :: "real list \<Rightarrow> real list" where
  "cummin [] = []"
| "cummin (x # xs) = (case cummin xs of [] \<Rightarrow> [x] | c # cs \<Rightarrow> min x c # c # cs)"

text \<open>Modelled from the spec: the place of \<open>i\<close> in a list, the rank of the \<open>i\<close>-th
  p-value less one.\<close>

definition pos :: "nat \<Rightarrow> nat list \<Rightarrow> nat" where
  "pos i xs = length (takeWhile (\<lambda>j. j \<noteq> i) xs)"

text \<open>
  Modelled from the spec: the Benjamini-Hochberg correction of section 4.4 over one
  family.  The p-values are ranked in ascending order, the one of rank \<open>k\<close> is scaled by
  \<open>m / k\<close>, the running minimum is taken from the largest down, the result is capped at
  one and put back in the order of the input.
\<close>

definition bh_order :: "real list \<Rightarrow> nat list" where
  "bh_order ps = sort_key (\<lambda>i. ps ! i) [0..<length ps]"

definition bh_scaled :: "real list \<Rightarrow> real list" where
  "bh_scaled ps =
     map (\<lambda>k. ps ! (bh_order ps ! k) * real (length ps) / real (k + 1)) [0..<length ps]"

definition fdr_bh :: "real list \<Rightarrow> real list" where
  "fdr_bh ps =
     (let adj = map (min 1) (cummin (bh_scaled ps))
      in map (\<lambda>i. adj ! pos i (bh_order ps)) [0..<length ps])"

text \<open>Modelled from the spec: a result record with its p-value, its adjusted p-value and
  the effective count of iterations (section 4.4).\<close>

record pvalues = comparison +
  p_value :: real
  p_fdr :: real
  n_effective :: nat

definition with_pvalues :: "nat \<Rightarrow> comparison \<Rightarrow> real \<Rightarrow> real \<Rightarrow> pvalues" where
  "with_pvalues n r p q =
     comparison.extend r
       \<lparr>p_value = p, p_fdr = q,
        n_effective = length (finite_pairs n (boot_norm r) (boot_raw r))\<rparr>"

text \<open>Modelled from the spec: one family, the result set of one outcome and one panel
  (section 4.4).\<close>

definition family_pvalues :: "nat \<Rightarrow> comparison list \<Rightarrow> pvalues list" where
  "family_pvalues n rs =
     (let ps = map (\<lambda>r. empirical_p n (boot_norm r) (boot_raw r)) rs;
          qs = fdr_bh ps
      in map (\<lambda>i. with_pvalues n (rs ! i) (ps ! i) (qs ! i)) [0..<length rs])"

text \<open>
  Modelled from the spec: \<open>fns.get_pvalues\<close> (section 4.4), which is missing from the
  sources; the arguments are those of the driver's call.  Every result set is a family
  of its own.  The spec gives the list of ratio labels no part in the computation.
\<close>

definition get_pvalues :: "comparison list list \<Rightarrow> string list \<Rightarrow> nat \<Rightarrow> error + pvalues list list" where
  "get_pvalues all_res normalized n = Inr (map (family_pvalues n) all_res)"

text \<open>The iterations that count for a p-value, and among them those where the
  normalized variant is not better than the raw one; both as sets of iteration numbers,
  to state what \<open>empirical_p\<close> computes.\<close>

definition counted :: "nat \<Rightarrow> val list \<Rightarrow> val list \<Rightarrow> nat set" where
  "counted n nrm raw =
     {i. i < n \<and> i < length nrm \<and> i < length raw \<and> nrm ! i \<noteq> None \<and> raw ! i \<noteq> None}"

definition not_better :: "nat \<Rightarrow> val list \<Rightarrow> val list \<Rightarrow> nat set" where
  "not_better n nrm raw = {i \<in> counted n nrm raw. the (nrm ! i) \<le> the (raw ! i)}"

text \<open>Neither value of a pair is missing.\<close>

definition both_finite :: "val \<times> val \<Rightarrow> bool" where
  "both_finite p = (fst p \<noteq> None \<and> snd p \<noteq> None)"

section \<open>A small table for the examples\<close>

definition mk_row :: "(string \<times> real) list \<Rightarrow> row" where
  "mk_row kvs = map_of kvs"

definition demo_table :: frame where
  "demo_table =
     \<lparr>columns = [''Visit'', ''A'', ''B'', ''R'', ''S'', ''Y1'', ''Y2'', ''Y3''],
      rows =
        [(0, mk_row [(''Visit'', 0), (''A'', 1), (''B'', 2), (''R'', 2), (''S'', 4),
                     (''Y1'', 1), (''Y2'', 3), (''Y3'', 2)]),
         (1, mk_row [(''Visit'', 0), (''A'', 2), (''B'', 1), (''R'', 4), (''S'', 2),
                     (''Y1'', 2), (''Y2'', 1), (''Y3'', 5)]),
         (2, mk_row [(''Visit'', 1), (''A'', 5), (''R'', 10), (''S'', 1),
                     (''Y1'', 2), (''Y2'', 2), (''Y3'', 2)]),
         (3, mk_row [(''Visit'', 0), (''A'', 3), (''R'', 0), (''S'', 1),
                     (''Y1'', 4), (''Y3'', 1)]),
         (4, mk_row [(''Visit'', 0), (''A'', 4), (''B'', 3), (''R'', 1), (''S'', 3),
                     (''Y1'', 3), (''Y2'', 2), (''Y3'', 4)])]\<rparr>"

text \<open>A table without the \<open>Visit\<close> column.\<close>

definition no_visit_table :: frame where
  "no_visit_table =
     \<lparr>columns = [''A'', ''R'', ''Y1''],
      rows = [(0, mk_row [(''A'', 1), (''R'', 2), (''Y1'', 1)])]\<rparr>"

text \<open>A labelling of ratio columns for the examples: \<open>biomarker_reference\<close>.\<close>

definition ratio_label :: "string \<Rightarrow> string \<Rightarrow> string" where
  "ratio_label b r = b @ ''_'' @ r"

text \<open>
  Stand-ins for the function module in the examples of the driver: a ratio construction
  that adds a column labelled \<open>biomarker_reference\<close> per biomarker, a comparison that
  reports the outcome and the number of rows it was given, and p-values that return the
  result sets as they are.
\<close>

definition probe_ratios :: "frame \<Rightarrow> string list \<Rightarrow> string \<Rightarrow> error + frame \<times> string list" where
  "probe_ratios f bs ref =
     (case filter (\<lambda>c. c \<notin> set (columns f)) (bs @ [ref]) of
        m # ms \<Rightarrow> Inl (KeyError (m # ms))
      | [] \<Rightarrow>
          Inr (foldl (\<lambda>d b. add_column d (ratio_label b ref)
                              (\<lambda>r. case r ref of
                                     None \<Rightarrow> None
                                   | Some x \<Rightarrow> if x \<le> 0 then None
                                               else map_option (\<lambda>y. y / x) (r b)))
                 f bs,
               map (\<lambda>b. ratio_label b ref) bs))"

definition probe_fns :: "(nat, string \<times> nat, string \<times> nat) fns" where
  "probe_fns =
     \<lparr>fn_create_biomarker_ratios = probe_ratios,
      fn_compare_biomarkers = (\<lambda>g f bs ns ref out n. Inr ((out, len f), Suc g)),
      fn_get_pvalues = (\<lambda>rs ns n. Inr rs)\<rparr>"

text \<open>Two more stand-ins, with the same ratio construction: a comparison that reports the
  index of the table it was given, and one that reports its \<open>Visit\<close> column.\<close>

definition index_probe_fns :: "(nat, nat list, nat list) fns" where
  "index_probe_fns =
     \<lparr>fn_create_biomarker_ratios = probe_ratios,
      fn_compare_biomarkers = (\<lambda>g f bs ns ref out n. Inr (index f, Suc g)),
      fn_get_pvalues = (\<lambda>rs ns n. Inr rs)\<rparr>"


text \<open>A configuration for \<open>demo_table\<close> whose list literals are well formed.\<close>

definition demo_source :: source where
  "demo_source =
     \<lparr>tau_pet_braak_I_IV = ''Y1'', tau_pet_braak_V_VI = ''Y2'', amyloid_pet = ''Y3'',
      csf_biomarkers_lit = [LSQB, STRING ''A'', RSQB],
      plasma_biomarkers_lit = [LSQB, STRING ''B'', COMMA, RSQB],
      csf_refprot = ''R'', plasma_refprot = ''S'', n_iter = 2, subset_flag = False\<rparr>"

text \<open>A family of three comparisons with four bootstrap values each, one of them not
  finite.\<close>

definition demo_comparison :: "string \<Rightarrow> val list \<Rightarrow> val list \<Rightarrow> comparison" where
  "demo_comparison b nrm raw =
     \<lparr>c_biomarker = b, c_normalized = ratio_label b ''R'', c_outcome = ''Y1'', n_obs = 5,
      fit_raw = \<lparr>coef = Some (0, 1), r2 = Some (1 / 2)\<rparr>,
      fit_norm = \<lparr>coef = Some (0, 1), r2 = Some (1 / 2)\<rparr>,
      boot_raw = raw, boot_norm = nrm\<rparr>"

definition demo_results :: "comparison list list" where
  "demo_results =
     [[demo_comparison ''A'' [Some (1 / 2), Some (3 / 5), None, Some (7 / 10)]
                             [Some (2 / 5), Some (1 / 2), Some (3 / 10), Some (4 / 5)],
       demo_comparison ''B'' [Some (9 / 10), Some (9 / 10), Some (4 / 5), Some (9 / 10)]
                             [Some (1 / 10), Some (1 / 5), Some (1 / 10), Some (1 / 10)],
       demo_comparison ''C'' [Some (1 / 10), Some (1 / 5), Some (1 / 10), Some (3 / 10)]
                             [Some (1 / 2), Some (1 / 5), Some (2 / 5), Some (1 / 2)]]]"

text \<open>A random number generator that hands out the numbers of a list, and
  \<open>demo_table\<close> with the ratio of \<open>A\<close> to \<open>R\<close>.\<close>

fun tape :: "nat list \<Rightarrow> nat \<times> nat list" where
  "tape [] = (0, [])"
| "tape (w # ws) = (w, ws)"

definition demo_ratio_table :: frame where
  "demo_ratio_table = add_column demo_table ''A_R'' (\<lambda>r. ratio_val (r ''A'') (r ''R''))"

section \<open>Outcome subsetting\<close>

lemma length_filter_mono:
  assumes "\<And>x. x \<in> set xs \<Longrightarrow> P x \<Longrightarrow> Q x"
  shows "length (filter P xs) \<le> length (filter Q xs)"
  using assms by (induction xs) auto

lemma index_reset_index: "index (reset_index f) = [0..<len (reset_index f)]"
  by (simp add: index_def reset_index_def len_def)

lemma getitem_cols_Inr:
  "getitem_cols f cs = Inr g \<longleftrightarrow>
     set cs \<subseteq> set (columns f) \<and>
     g = \<lparr>columns = cs,
          rows = map (\<lambda>ir. (fst ir, \<lambda>c. if c \<in> set cs then snd ir c else None)) (rows f)\<rparr>"
proof (cases "filter (\<lambda>c. c \<notin> set (columns f)) cs")
  case Nil
  then have "set cs \<subseteq> set (columns f)"
    by (auto simp: filter_empty_conv)
  with Nil show ?thesis
    by (auto simp: getitem_cols_def)
next
  case (Cons m ms)
  then have "m \<in> set (filter (\<lambda>c. c \<notin> set (columns f)) cs)"
    by simp
  then have "\<not> set cs \<subseteq> set (columns f)"
    by auto
  with Cons show ?thesis
    by (simp add: getitem_cols_def)
qed

text \<open>
  C7.  Whenever the common-subset frame of an outcome can be built (all the columns it
  names exist), the maximize-availability frame of that outcome can be built too, it is
  what the driver passes on without \<open>subset\<close>, and the common subset has at most as many
  rows.
\<close>

theorem common_subset_le_max_availability:
  assumes "stage_input True d d_out bs ns ref out = Inr a"
  shows "\<exists>b. outcome_frame d out = Inr b \<and> stage_input False d b bs ns ref out = Inr b
           \<and> len a \<le> len b"
proof -
  let ?cs = "bs @ ns @ [ref, out]"
  from assms obtain sel where sel: "getitem_cols d ?cs = Inr sel"
    and a: "a = reset_index (dropna sel)"
    by (auto simp: stage_input_def split: sum.splits)
  from sel have nomiss: "set ?cs \<subseteq> set (columns d)"
    and sel_eq: "sel = \<lparr>columns = ?cs,
                   rows = map (\<lambda>ir. (fst ir, \<lambda>c. if c \<in> set ?cs then snd ir c else None)) (rows d)\<rparr>"
    by (simp_all only: getitem_cols_Inr)
  from nomiss have out_col: "out \<in> set (columns d)"
    by simp
  define b where "b = reset_index (getitem_mask d (\<lambda>r. r out \<noteq> None))"
  have b: "outcome_frame d out = Inr b"
    using out_col by (simp add: outcome_frame_def b_def)
  have "len a \<le> len b"
    unfolding a b_def len_def reset_index_def dropna_def getitem_mask_def sel_eq
    by (simp add: list_all_iff) (rule length_filter_mono, auto)
  with b show ?thesis by (simp add: stage_input_def)
qed

theorem common_subset_le_max_availability_witness:
  "\<exists>a b. stage_input True demo_table demo_table [''A''] [''B''] ''R'' ''Y2'' = Inr a
         \<and> outcome_frame demo_table ''Y2'' = Inr b \<and> len a = 3 \<and> len b = 4 \<and> len a \<le> len b"
proof -
  define a where "a = reset_index (dropna
     \<lparr>columns = [''A'', ''B'', ''R'', ''Y2''],
      rows = map (\<lambda>ir. (fst ir, \<lambda>c. if c \<in> set [''A'', ''B'', ''R'', ''Y2''] then snd ir c else None))
               (rows demo_table)\<rparr>)"
  have 1: "stage_input True demo_table demo_table [''A''] [''B''] ''R'' ''Y2'' = Inr a"
    by (simp add: stage_input_def getitem_cols_def demo_table_def a_def)
  from common_subset_le_max_availability [OF 1]
  obtain b where b: "outcome_frame demo_table ''Y2'' = Inr b" and le: "len a \<le> len b"
    by blast
  have la: "len a = 3"
    by (simp add: a_def len_def reset_index_def dropna_def demo_table_def mk_row_def)
  from b have "b = reset_index (getitem_mask demo_table (\<lambda>r. r ''Y2'' \<noteq> None))"
    by (simp add: outcome_frame_def demo_table_def split: if_splits)
  then have lb: "len b = 4"
    by (simp add: len_def reset_index_def getitem_mask_def demo_table_def mk_row_def)
  from 1 b la lb le show ?thesis by blast
qed

lemma stage_input_reset:
  assumes "outcome_frame d out = Inr d_out"
    and "stage_input sf d d_out bs ns ref out' = Inr a"
  shows "index_reset a"
  using assms
  by (auto simp: index_reset_def stage_input_def outcome_frame_def index_reset_index
      split: if_splits sum.splits)

section \<open>Runs of the notebook\<close>

lemma calls_append [simp]: "calls (xs @ ys) = calls xs @ calls ys"
  by (simp add: calls_def)

lemma calls_simps [simp]:
  "calls [] = []"
  "calls (Print s # ev) = calls ev"
  "calls (Ratios p # ev) = Ratios p # calls ev"
  "calls (Compare p out # ev) = Compare p out # calls ev"
  "calls (PValues p # ev) = PValues p # calls ev"
  "calls (PickleDump file payload # ev) = PickleDump file payload # calls ev"
  by (simp_all add: calls_def)

lemma nb_bind_Inr:
  "nb_bind m k = (ev, Inr b) \<longleftrightarrow>
     (\<exists>ev1 a ev2. m = (ev1, Inr a) \<and> k a = (ev2, Inr b) \<and> ev = ev1 @ ev2)"
  by (cases m; cases "snd m") (auto simp: nb_bind_def split: prod.splits sum.splits)

lemma nb_lift_eq [simp]: "nb_lift r = (ev, x) \<longleftrightarrow> ev = [] \<and> r = x"
  by (auto simp: nb_lift_def)

lemma nb_emit_eq [simp]: "nb_emit e = (ev, x) \<longleftrightarrow> ev = [e] \<and> x = Inr ()"
  by (auto simp: nb_emit_def)

lemma nb_return_eq [simp]: "nb_return a = (ev, x) \<longleftrightarrow> ev = [] \<and> x = Inr a"
  by (auto simp: nb_return_def)

lemma at_cell_Inr [simp]: "at_cell c m = (ev, Inr a) \<longleftrightarrow> m = (ev, Inr a)"
  by (cases m; cases "snd m") (auto simp: at_cell_def)

lemma config_body_calls:
  assumes "config_body src F csf plasma d0 = (ev, Inr e)"
  shows "calls ev = [Ratios CSF, Ratios Plasma]"
  using assms unfolding config_body_def
  by (auto simp: nb_bind_Inr split: prod.splits)

lemma config_cell_calls:
  assumes "config_cell src F d0 = (ev, Inr e)"
  shows "calls ev = [Ratios CSF, Ratios Plasma]"
  using assms config_body_calls unfolding config_cell_def
  by (fastforce split: option.splits)

lemma compare_block_Inr:
  assumes "compare_block src F e p d_out out msg g = (ev, Inr rg)"
  shows "calls ev = [Compare p out] \<and> last ev = Print msg"
  using assms unfolding compare_block_def Let_def
  by (auto simp: nb_bind_Inr split: prod.splits)

lemma panel_blocks_Inr:
  assumes "panel_blocks src F e p name g = (ev, Inr (rs, g'))"
  shows "\<exists>r1 g1 r2 g2 r3.
           rs = [r1, r2, r3] \<and>
           snd (compare_block src F e p (df_tau_pet_braak_I_IV e) (tau_pet_braak_I_IV src)
                  (''Tau pet braak I-IV done for '' @ name) g) = Inr (r1, g1) \<and>
           snd (compare_block src F e p (df_tau_pet_braak_V_VI e) (tau_pet_braak_V_VI src)
                  (''Tau pet braak V-VI done for '' @ name) g1) = Inr (r2, g2) \<and>
           snd (compare_block src F e p (df_amyloid_pet e) (amyloid_pet src)
                  (''Amyloid pet done for '' @ name) g2) = Inr (r3, g') \<and>
           calls ev = [Compare p (tau_pet_braak_I_IV src), Compare p (tau_pet_braak_V_VI src),
                       Compare p (amyloid_pet src)]"
proof -
  from assms obtain ev1 r1 g1 ev2 r2 g2 ev3 r3 where
    b1: "compare_block src F e p (df_tau_pet_braak_I_IV e) (tau_pet_braak_I_IV src)
           (''Tau pet braak I-IV done for '' @ name) g = (ev1, Inr (r1, g1))"
    and b2: "compare_block src F e p (df_tau_pet_braak_V_VI e) (tau_pet_braak_V_VI src)
           (''Tau pet braak V-VI done for '' @ name) g1 = (ev2, Inr (r2, g2))"
    and b3: "compare_block src F e p (df_amyloid_pet e) (amyloid_pet src)
           (''Amyloid pet done for '' @ name) g2 = (ev3, Inr (r3, g'))"
    and rs: "rs = [r1, r2, r3]" and ev: "ev = ev1 @ ev2 @ ev3"
    unfolding panel_blocks_def by (auto simp: nb_bind_Inr split: prod.splits)
  from b1 b2 b3 rs ev compare_block_Inr [OF b1] compare_block_Inr [OF b2] compare_block_Inr [OF b3]
  show ?thesis by simp
qed

lemma save_cell_Inr:
  assumes "save_cell src F e rc rp = (ev, Inr u)"
  shows "\<exists>pc pp. fn_get_pvalues F rc (csf_biomarkers_normalized e) (n_iter src) = Inr pc \<and>
           fn_get_pvalues F rp (plasma_biomarkers_normalized e) (n_iter src) = Inr pp \<and>
           ev = [PValues CSF, PValues Plasma, PickleDump ''linreg_results.pkl'' (pc @ pp)]"
  using assms unfolding save_cell_def
  by (auto simp: nb_bind_Inr)

subsection \<open>The notebook as shipped\<close>

lemma shipped_csf_literal: "list_display (csf_biomarkers_lit shipped) = None"
  by (simp add: shipped_def list_display_def)

lemma shipped_plasma_literal: 
  "list_display (plasma_biomarkers_lit shipped) =
     Some [''Plasma_ptau217_Lilly'', ''Plasma_ptau181_Lilly'', ''Plasma_ptau205_WashU'',
           ''Plasma_eMTBRtau243_WashU'', ''Plasma_Ab42_WashU'']"
  by (simp add: shipped_def list_display_def)

text \<open>
  C3 (amended).  The \<open>csf_biomarkers\<close> literal of the configuration cell has a doubled
  comma and does not parse.  On a table with a \<open>Visit\<close> column the run of the shipped
  notebook ends at the configuration cell with a SyntaxError; on a table without it the
  run ends one cell earlier, at the loading cell, with a KeyError.  In both cases nothing
  has been printed, no function of the module has been called and no file written.
\<close>

theorem shipped_run_fails:
  "list_display (csf_biomarkers_lit shipped) = None \<and>
   run_notebook shipped F g raw =
     ([], Inl (if ''Visit'' \<in> set (columns raw) then (Config, SyntaxError)
               else (Load, KeyError [''Visit''])))"
  by (simp add: shipped_csf_literal run_notebook_def load_cell_def config_cell_def
      nb_bind_def nb_lift_def at_cell_def)

text \<open>C3 without the amendment does not hold: on a table without a \<open>Visit\<close> column the
  run does not reach the configuration cell.\<close>

theorem shipped_run_counterexample:
  "run_notebook shipped probe_fns 0 no_visit_table = ([], Inl (Load, KeyError [''Visit''])) \<and>
   run_notebook shipped probe_fns 0 no_visit_table \<noteq> ([], Inl (Config, SyntaxError))"
  by (simp add: run_notebook_def load_cell_def no_visit_table_def nb_bind_def nb_lift_def
      at_cell_def)

subsection \<open>The output file\<close>

text \<open>
  C6.  A run that completes has called the ratio construction for both panels, then the
  six comparisons in the order CSF (temporal tau, cortical tau, amyloid), plasma (the
  same three), then the p-values of both panels, and has then written one pickle file,
  its last event.  The file holds the p-value results of the three CSF comparisons
  followed by those of the three plasma comparisons: six result sets when
  \<open>get_pvalues\<close> returns one set per set it is given.
\<close>

theorem run_dumps_six_once:
  assumes run: "run_notebook src F g raw = (ev, Inr ())"
    and per_set: "\<forall>rs ns n ps. fn_get_pvalues F rs ns n = Inr ps \<longrightarrow> length ps = length rs"
  shows "\<exists>payload e r1 g1 r2 g2 r3 g3 r4 g4 r5 g5 r6 g6 pc pp.
     calls ev =
       [Ratios CSF, Ratios Plasma,
        Compare CSF (tau_pet_braak_I_IV src), Compare CSF (tau_pet_braak_V_VI src),
        Compare CSF (amyloid_pet src),
        Compare Plasma (tau_pet_braak_I_IV src), Compare Plasma (tau_pet_braak_V_VI src),
        Compare Plasma (amyloid_pet src),
        PValues CSF, PValues Plasma, PickleDump ''linreg_results.pkl'' payload]
     \<and> last ev = PickleDump ''linreg_results.pkl'' payload
     \<and> length payload = 6 \<and> payload = pc @ pp \<and> length pc = 3
     \<and> fn_get_pvalues F [r1, r2, r3] (csf_biomarkers_normalized e) (n_iter src) = Inr pc
     \<and> fn_get_pvalues F [r4, r5, r6] (plasma_biomarkers_normalized e) (n_iter src) = Inr pp
     \<and> snd (compare_block src F e CSF (df_tau_pet_braak_I_IV e) (tau_pet_braak_I_IV src)
              (''Tau pet braak I-IV done for '' @ ''CSF'') g) = Inr (r1, g1)
     \<and> snd (compare_block src F e CSF (df_tau_pet_braak_V_VI e) (tau_pet_braak_V_VI src)
              (''Tau pet braak V-VI done for '' @ ''CSF'') g1) = Inr (r2, g2)
     \<and> snd (compare_block src F e CSF (df_amyloid_pet e) (amyloid_pet src)
              (''Amyloid pet done for '' @ ''CSF'') g2) = Inr (r3, g3)
     \<and> snd (compare_block src F e Plasma (df_tau_pet_braak_I_IV e) (tau_pet_braak_I_IV src)
              (''Tau pet braak I-IV done for '' @ ''plasma'') g3) = Inr (r4, g4)
     \<and> snd (compare_block src F e Plasma (df_tau_pet_braak_V_VI e) (tau_pet_braak_V_VI src)
              (''Tau pet braak V-VI done for '' @ ''plasma'') g4) = Inr (r5, g5)
     \<and> snd (compare_block src F e Plasma (df_amyloid_pet e) (amyloid_pet src)
              (''Amyloid pet done for '' @ ''plasma'') g5) = Inr (r6, g6)"
proof -
  from run obtain d0 ev1 e ev2 rc rp ev3 where
    cfg: "config_cell src F d0 = (ev1, Inr e)"
    and mdl: "models_cell src F e g = (ev2, Inr (rc, rp))"
    and sav: "save_cell src F e rc rp = (ev3, Inr ())"
    and ev: "ev = ev1 @ ev2 @ ev3"
    unfolding run_notebook_def by (auto simp: nb_bind_Inr split: prod.splits)
  from mdl obtain ev4 g3 ev5 g6 where
    pc: "panel_blocks src F e CSF ''CSF'' g = (ev4, Inr (rc, g3))"
    and pp: "panel_blocks src F e Plasma ''plasma'' g3 = (ev5, Inr (rp, g6))"
    and ev2: "ev2 = ev4 @ ev5"
    unfolding models_cell_def by (auto simp: nb_bind_Inr split: prod.splits)
  from panel_blocks_Inr [OF pc] obtain r1 g1 r2 g2 r3 where
    rc: "rc = [r1, r2, r3]"
    and c1: "snd (compare_block src F e CSF (df_tau_pet_braak_I_IV e) (tau_pet_braak_I_IV src)
              (''Tau pet braak I-IV done for '' @ ''CSF'') g) = Inr (r1, g1)"
    and c2: "snd (compare_block src F e CSF (df_tau_pet_braak_V_VI e) (tau_pet_braak_V_VI src)
              (''Tau pet braak V-VI done for '' @ ''CSF'') g1) = Inr (r2, g2)"
    and c3: "snd (compare_block src F e CSF (df_amyloid_pet e) (amyloid_pet src)
              (''Amyloid pet done for '' @ ''CSF'') g2) = Inr (r3, g3)"
    and ev4: "calls ev4 = [Compare CSF (tau_pet_braak_I_IV src),
                Compare CSF (tau_pet_braak_V_VI src), Compare CSF (amyloid_pet src)]"
    by blast
  from panel_blocks_Inr [OF pp] obtain r4 g4 r5 g5 r6 where
    rp: "rp = [r4, r5, r6]"
    and c4: "snd (compare_block src F e Plasma (df_tau_pet_braak_I_IV e) (tau_pet_braak_I_IV src)
              (''Tau pet braak I-IV done for '' @ ''plasma'') g3) = Inr (r4, g4)"
    and c5: "snd (compare_block src F e Plasma (df_tau_pet_braak_V_VI e) (tau_pet_braak_V_VI src)
              (''Tau pet braak V-VI done for '' @ ''plasma'') g4) = Inr (r5, g5)"
    and c6: "snd (compare_block src F e Plasma (df_amyloid_pet e) (amyloid_pet src)
              (''Amyloid pet done for '' @ ''plasma'') g5) = Inr (r6, g6)"
    and ev5: "calls ev5 = [Compare Plasma (tau_pet_braak_I_IV src),
                Compare Plasma (tau_pet_braak_V_VI src), Compare Plasma (amyloid_pet src)]"
    by blast
  from save_cell_Inr [OF sav] obtain pc pp where
    gc: "fn_get_pvalues F rc (csf_biomarkers_normalized e) (n_iter src) = Inr pc"
    and gp: "fn_get_pvalues F rp (plasma_biomarkers_normalized e) (n_iter src) = Inr pp"
    and ev3: "ev3 = [PValues CSF, PValues Plasma, PickleDump ''linreg_results.pkl'' (pc @ pp)]"
    by blast
  from per_set gc rc have lc: "length pc = 3" by fastforce
  from per_set gp rp have lp: "length pp = 3" by fastforce
  have calls_ev: "calls ev =
       [Ratios CSF, Ratios Plasma,
        Compare CSF (tau_pet_braak_I_IV src), Compare CSF (tau_pet_braak_V_VI src),
        Compare CSF (amyloid_pet src),
        Compare Plasma (tau_pet_braak_I_IV src), Compare Plasma (tau_pet_braak_V_VI src),
        Compare Plasma (amyloid_pet src),
        PValues CSF, PValues Plasma, PickleDump ''linreg_results.pkl'' (pc @ pp)]"
    by (simp add: ev ev2 ev3 ev4 ev5 config_cell_calls [OF cfg])
  have last_ev: "last ev = PickleDump ''linreg_results.pkl'' (pc @ pp)"
    by (simp add: ev ev3)
  from calls_ev last_ev lc lp gc gp c1 c2 c3 c4 c5 c6 show ?thesis
    unfolding rc rp by (intro exI conjI) (assumption | simp)+
qed

theorem run_dumps_six_once_witness:
  "\<exists>ev. run_notebook demo_source probe_fns 0 demo_table = (ev, Inr ()) \<and>
     calls ev =
       [Ratios CSF, Ratios Plasma,
        Compare CSF ''Y1'', Compare CSF ''Y2'', Compare CSF ''Y3'',
        Compare Plasma ''Y1'', Compare Plasma ''Y2'', Compare Plasma ''Y3'',
        PValues CSF, PValues Plasma,
        PickleDump ''linreg_results.pkl''
          [(''Y1'', 4), (''Y2'', 3), (''Y3'', 4), (''Y1'', 4), (''Y2'', 3), (''Y3'', 4)]] \<and>
     last ev = PickleDump ''linreg_results.pkl''
          [(''Y1'', 4), (''Y2'', 3), (''Y3'', 4), (''Y1'', 4), (''Y2'', 3), (''Y3'', 4)]"
proof -
  have "\<exists>ev. run_notebook demo_source probe_fns 0 demo_table = (ev, Inr ()) \<and>
          (\<exists>ev'. ev = ev' @ [PickleDump ''linreg_results.pkl''
          [(''Y1'', 4), (''Y2'', 3), (''Y3'', 4), (''Y1'', 4), (''Y2'', 3), (''Y3'', 4)]])"
    by (simp add: run_notebook_def demo_source_def probe_fns_def probe_ratios_def demo_table_def mk_row_def
      load_cell_def config_cell_def config_body_def models_cell_def panel_blocks_def
      compare_block_def save_cell_def list_display_def nb_bind_def nb_lift_def nb_emit_def
      nb_return_def at_cell_def outcome_frame_def stage_input_def getitem_mask_def
      reset_index_def len_def add_column_def ratio_label_def)
  then obtain ev ev' where run: "run_notebook demo_source probe_fns 0 demo_table = (ev, Inr ())"
    and ev: "ev = ev' @ [PickleDump ''linreg_results.pkl''
          [(''Y1'', 4), (''Y2'', 3), (''Y3'', 4), (''Y1'', 4), (''Y2'', 3), (''Y3'', 4)]]"
    by blast
  have per_set: "\<forall>rs ns n ps. fn_get_pvalues probe_fns rs ns n = Inr ps \<longrightarrow> length ps = length rs"
    by (simp add: probe_fns_def)
  from run_dumps_six_once [OF run per_set] obtain payload where
    c: "calls ev =
       [Ratios CSF, Ratios Plasma,
        Compare CSF (tau_pet_braak_I_IV demo_source), Compare CSF (tau_pet_braak_V_VI demo_source),
        Compare CSF (amyloid_pet demo_source),
        Compare Plasma (tau_pet_braak_I_IV demo_source), Compare Plasma (tau_pet_braak_V_VI demo_source),
        Compare Plasma (amyloid_pet demo_source),
        PValues CSF, PValues Plasma, PickleDump ''linreg_results.pkl'' payload]"
    and l: "last ev = PickleDump ''linreg_results.pkl'' payload"
    by blast
  from l ev have "payload = [(''Y1'', 4), (''Y2'', 3), (''Y3'', 4), (''Y1'', 4), (''Y2'', 3), (''Y3'', 4)]"
    by simp
  with c l run show ?thesis
    by (simp add: demo_source_def)
qed

subsection \<open>The tables handed to the function module\<close>

lemma asserting_fields [simp]:
  "fn_create_biomarker_ratios (asserting P F) = fn_create_biomarker_ratios F"
  "fn_get_pvalues (asserting P F) = fn_get_pvalues F"
  "fn_compare_biomarkers (asserting P F) g f bs ns ref out n =
     (if P f then fn_compare_biomarkers F g f bs ns ref out n else Inl AssertionError)"
  by (simp_all add: asserting_def)

lemma asserting_ratios_fields [simp]:
  "fn_compare_biomarkers (asserting_ratios P F) = fn_compare_biomarkers F"
  "fn_get_pvalues (asserting_ratios P F) = fn_get_pvalues F"
  "fn_create_biomarker_ratios (asserting_ratios P F) f bs ref =
     (if P f then fn_create_biomarker_ratios F f bs ref else Inl AssertionError)"
  by (simp_all add: asserting_ratios_def)

lemma nb_bind_cong_Inr:
  assumes "\<And>ev a. m = (ev, Inr a) \<Longrightarrow> k a = k' a"
  shows "nb_bind m k = nb_bind m k'"
  using assms by (cases m; cases "snd m") (auto simp: nb_bind_def)

lemma config_body_asserting [simp]:
  "config_body src (asserting P F) csf plasma d0 = config_body src F csf plasma d0"
  by (simp add: config_body_def)

lemma config_cell_asserting [simp]:
  "config_cell src (asserting P F) d0 = config_cell src F d0"
  by (simp add: config_cell_def split: option.splits)

lemma save_cell_asserting [simp]:
  "save_cell src (asserting P F) e rc rp = save_cell src F e rc rp"
  by (simp add: save_cell_def)

lemma compare_block_asserting:
  assumes "\<forall>bs ns ref a. stage_input (subset_flag src) (df e) d_out bs ns ref out = Inr a \<longrightarrow> P a"
  shows "compare_block src (asserting P F) e p d_out out msg g
           = compare_block src F e p d_out out msg g"
  unfolding compare_block_def Let_def
  by (rule nb_bind_cong_Inr) (use assms in simp)

text \<open>What the configuration cell leaves behind: the three per-outcome frames are the
  outcome frames of the table with the ratios.\<close>

lemma config_cell_frames:
  assumes "config_cell src F d0 = (ev, Inr e)"
  shows "\<exists>csf plasma d1 n1 n2.
           list_display (csf_biomarkers_lit src) = Some csf \<and>
           list_display (plasma_biomarkers_lit src) = Some plasma \<and>
           fn_create_biomarker_ratios F d0 csf (csf_refprot src) = Inr (d1, n1) \<and>
           fn_create_biomarker_ratios F d1 plasma (plasma_refprot src) = Inr (df e, n2) \<and>
           outcome_frame (df e) (tau_pet_braak_I_IV src) = Inr (df_tau_pet_braak_I_IV e) \<and>
           outcome_frame (df e) (tau_pet_braak_V_VI src) = Inr (df_tau_pet_braak_V_VI e) \<and>
           outcome_frame (df e) (amyloid_pet src) = Inr (df_amyloid_pet e)"
proof -
  from assms obtain csf plasma where
    l: "list_display (csf_biomarkers_lit src) = Some csf"
       "list_display (plasma_biomarkers_lit src) = Some plasma"
    and body: "config_body src F csf plasma d0 = (ev, Inr e)"
    unfolding config_cell_def by (auto split: option.splits)
  from body obtain d1 n1 d2 n2 where
    "fn_create_biomarker_ratios F d0 csf (csf_refprot src) = Inr (d1, n1)"
    "fn_create_biomarker_ratios F d1 plasma (plasma_refprot src) = Inr (d2, n2)"
    "df e = d2"
    "outcome_frame d2 (tau_pet_braak_I_IV src) = Inr (df_tau_pet_braak_I_IV e)"
    "outcome_frame d2 (tau_pet_braak_V_VI src) = Inr (df_tau_pet_braak_V_VI e)"
    "outcome_frame d2 (amyloid_pet src) = Inr (df_amyloid_pet e)"
    unfolding config_body_def by (auto simp: nb_bind_Inr split: prod.splits)
  with l show ?thesis by auto
qed

lemma models_cell_asserting:
  assumes "\<forall>bs ns ref a. stage_input (subset_flag src) (df e) (df_tau_pet_braak_I_IV e) bs ns ref
              (tau_pet_braak_I_IV src) = Inr a \<longrightarrow> P a"
    and "\<forall>bs ns ref a. stage_input (subset_flag src) (df e) (df_tau_pet_braak_V_VI e) bs ns ref
              (tau_pet_braak_V_VI src) = Inr a \<longrightarrow> P a"
    and "\<forall>bs ns ref a. stage_input (subset_flag src) (df e) (df_amyloid_pet e) bs ns ref
              (amyloid_pet src) = Inr a \<longrightarrow> P a"
  shows "models_cell src (asserting P F) e g = models_cell src F e g"
  by (simp add: models_cell_def panel_blocks_def
      compare_block_asserting [OF assms(1)] compare_block_asserting [OF assms(2)]
      compare_block_asserting [OF assms(3)])

lemma run_notebook_asserting:
  assumes "\<And>d0 ev e. load_cell raw = Inr d0 \<Longrightarrow> config_cell src F d0 = (ev, Inr e) \<Longrightarrow>
             models_cell src (asserting P F) e g = models_cell src F e g"
  shows "run_notebook src (asserting P F) g raw = run_notebook src F g raw"
  unfolding run_notebook_def
proof (rule nb_bind_cong_Inr)
  fix ev0 d0
  assume "at_cell Load (nb_lift (load_cell raw)) = (ev0, Inr d0)"
  then have l: "load_cell raw = Inr d0" by simp
  show "nb_bind (at_cell Config (config_cell src (asserting P F) d0))
          (\<lambda>e. nb_bind (at_cell Models (models_cell src (asserting P F) e g))
                 (\<lambda>(all_res_csf, all_res_plasma).
                    at_cell Save (save_cell src (asserting P F) e all_res_csf all_res_plasma)))
        = nb_bind (at_cell Config (config_cell src F d0))
          (\<lambda>e. nb_bind (at_cell Models (models_cell src F e g))
                 (\<lambda>(all_res_csf, all_res_plasma).
                    at_cell Save (save_cell src F e all_res_csf all_res_plasma)))"
    unfolding config_cell_asserting
  proof (rule nb_bind_cong_Inr)
    fix ev e
    assume "at_cell Config (config_cell src F d0) = (ev, Inr e)"
    then have c: "config_cell src F d0 = (ev, Inr e)" by simp
    from assms [OF l c] show "nb_bind (at_cell Models (models_cell src (asserting P F) e g))
                 (\<lambda>(all_res_csf, all_res_plasma).
                    at_cell Save (save_cell src (asserting P F) e all_res_csf all_res_plasma))
        = nb_bind (at_cell Models (models_cell src F e g))
                 (\<lambda>(all_res_csf, all_res_plasma).
                    at_cell Save (save_cell src F e all_res_csf all_res_plasma))"
      by simp
  qed
qed

text \<open>
  C8.  In every run, whatever the configuration, the input table and the function
  module, each of the six tables handed to \<open>fns.compare_biomarkers\<close> (three outcomes,
  two panels) has the index 0, 1, ..., n - 1: a function module that checks this index
  before it compares, and raises otherwise, gives the same run.  The subsetting mode
  is a field of the configuration, so this holds in both modes: without \<open>subset\<close> the
  table is the per-outcome frame, reset when it was built at lines 97 to 99; with
  \<open>subset\<close> it is reset after \<open>dropna\<close>.
\<close>

theorem compare_gets_reset_index:
  "run_notebook src (asserting index_reset F) g raw = run_notebook src F g raw"
proof (rule run_notebook_asserting)
  fix d0 ev e
  assume "load_cell raw = Inr d0" and c: "config_cell src F d0 = (ev, Inr e)"
  from config_cell_frames [OF c] have
    o: "outcome_frame (df e) (tau_pet_braak_I_IV src) = Inr (df_tau_pet_braak_I_IV e)"
       "outcome_frame (df e) (tau_pet_braak_V_VI src) = Inr (df_tau_pet_braak_V_VI e)"
       "outcome_frame (df e) (amyloid_pet src) = Inr (df_amyloid_pet e)"
    by auto
  show "models_cell src (asserting index_reset F) e g = models_cell src F e g"
    by (rule models_cell_asserting) (use o stage_input_reset in blast)+
qed

theorem compare_gets_reset_index_witness:
  "(\<exists>ev. run_notebook demo_source (asserting index_reset index_probe_fns) 0 demo_table
            = (ev, Inr ()) \<and>
          last ev = PickleDump ''linreg_results.pkl''
            [[0, 1, 2, 3], [0, 1, 2], [0, 1, 2, 3], [0, 1, 2, 3], [0, 1, 2], [0, 1, 2, 3]]) \<and>
   (\<exists>ev. run_notebook (demo_source\<lparr>subset_flag := True\<rparr>)
            (asserting index_reset index_probe_fns) 0 demo_table = (ev, Inr ()) \<and>
          last ev = PickleDump ''linreg_results.pkl''
            [[0, 1, 2], [0, 1, 2], [0, 1, 2], [0, 1, 2], [0, 1, 2], [0, 1, 2]])"
proof -
  have 1: "\<exists>ev. run_notebook demo_source index_probe_fns 0 demo_table = (ev, Inr ()) \<and>
          last ev = PickleDump ''linreg_results.pkl''
            [[0, 1, 2, 3], [0, 1, 2], [0, 1, 2, 3], [0, 1, 2, 3], [0, 1, 2], [0, 1, 2, 3]]"
    by (simp add: run_notebook_def demo_source_def index_probe_fns_def probe_ratios_def
      demo_table_def mk_row_def
      load_cell_def config_cell_def config_body_def models_cell_def panel_blocks_def
      compare_block_def save_cell_def list_display_def nb_bind_def nb_lift_def nb_emit_def
      nb_return_def at_cell_def outcome_frame_def stage_input_def getitem_mask_def
      reset_index_def len_def index_def add_column_def ratio_label_def)
  have 2: "\<exists>ev. run_notebook (demo_source\<lparr>subset_flag := True\<rparr>) index_probe_fns 0 demo_table
            = (ev, Inr ()) \<and>
          last ev = PickleDump ''linreg_results.pkl''
            [[0, 1, 2], [0, 1, 2], [0, 1, 2], [0, 1, 2], [0, 1, 2], [0, 1, 2]]"
    by (simp add: run_notebook_def demo_source_def index_probe_fns_def probe_ratios_def
      demo_table_def mk_row_def
      load_cell_def config_cell_def config_body_def models_cell_def panel_blocks_def
      compare_block_def save_cell_def list_display_def nb_bind_def nb_lift_def nb_emit_def
      nb_return_def at_cell_def outcome_frame_def stage_input_def getitem_mask_def
      getitem_cols_def dropna_def Let_def
      reset_index_def len_def index_def add_column_def ratio_label_def
      del: not_None_eq)
  from 1 2 show ?thesis
    unfolding compare_gets_reset_index [of demo_source index_probe_fns 0 demo_table]
      compare_gets_reset_index [of "demo_source\<lparr>subset_flag := True\<rparr>" index_probe_fns 0 demo_table]
    by blast
qed

subsection \<open>Baseline visits only\<close>

lemma columns_reset_index [simp]: "columns (reset_index f) = columns f"
  by (simp add: reset_index_def)

lemma same_on_refl: "same_on cols d d"
  by (simp add: same_on_def list_all2_refl list_all_iff)

lemma same_on_trans:
  assumes "same_on cols d f" and "same_on cols f h"
  shows "same_on cols d h"
proof -
  let ?R = "\<lambda>ir jr. list_all (\<lambda>c. snd jr c = snd ir c) cols"
  from assms have 1: "list_all2 ?R (rows d) (rows f)" and 2: "list_all2 ?R (rows f) (rows h)"
    by (simp_all add: same_on_def)
  have "list_all2 ?R (rows d) (rows h)"
    by (rule list_all2_trans [OF _ 1 2]) (simp add: list_all_iff)
  with assms show ?thesis by (simp add: same_on_def)
qed








lemma untouched_asserting [simp]: "untouched raw (asserting P F) = untouched raw F"
  by (simp add: untouched_def)




lemma models_cell_asserting_ratios [simp]:
  "models_cell src (asserting_ratios P F) e g = models_cell src F e g"
  by (simp add: models_cell_def panel_blocks_def compare_block_def)

lemma save_cell_asserting_ratios [simp]:
  "save_cell src (asserting_ratios P F) e rc rp = save_cell src F e rc rp"
  by (simp add: save_cell_def)




lemma add_column_same_on:
  assumes "c \<notin> set cols"
  shows "same_on cols f (add_column f c v)"
proof -
  have "list_all2 (\<lambda>ir jr. list_all (\<lambda>c. snd jr c = snd ir c) cols)
          (rows f) (map (\<lambda>ir. (fst ir, (snd ir)(c := v (snd ir)))) (rows f))"
    using assms by (auto simp: list_all2_map2 list_all2_same list_all_iff)
  then show ?thesis
    by (simp add: same_on_def index_def add_column_def)
qed






section \<open>Ratio construction\<close>

lemma columns_add_column:
  "columns (add_column f c v) = columns f @ (if c \<in> set (columns f) then [] else [c])"
  by (simp add: add_column_def)

lemma rows_add_column:
  "rows (add_column f c v) = map (\<lambda>ir. (fst ir, (snd ir)(c := v (snd ir)))) (rows f)"
  by (simp add: add_column_def)

lemma create_biomarker_ratios_Cons_Inr:
  assumes "create_biomarker_ratios nm f (b # bs) ref = Inr (f', names)"
  obtains names' where "b \<in> set (columns f)" and "ref \<in> set (columns f)"
    and "create_biomarker_ratios nm
           (add_column f (nm b ref) (\<lambda>r. ratio_val (r b) (r ref))) bs ref = Inr (f', names')"
    and "names = nm b ref # names'"
  using assms by (auto split: if_splits sum.splits)

text \<open>The modelled ratio construction returns the rows it is given, under their index
  labels, and leaves alone every column whose label is not one of its new labels.\<close>

lemma create_biomarker_ratios_same_on:
  assumes "\<And>b. nm b ref \<notin> set cols"
    and "create_biomarker_ratios nm f bs ref = Inr (f', names)"
  shows "same_on cols f f'"
  using assms(2)
proof (induction bs arbitrary: f names)
  case Nil
  then show ?case by (simp add: same_on_refl)
next
  case (Cons b bs)
  let ?f1 = "add_column f (nm b ref) (\<lambda>r. ratio_val (r b) (r ref))"
  from Cons.prems obtain names' where
    rec: "create_biomarker_ratios nm ?f1 bs ref = Inr (f', names')"
    by (rule create_biomarker_ratios_Cons_Inr)
  from add_column_same_on [OF assms(1)] Cons.IH [OF rec]
  show ?case by (rule same_on_trans)
qed

lemma create_biomarker_ratios_untouched:
  assumes "\<And>b ref. nm b ref \<notin> set (columns raw)"
  shows "untouched raw
           \<lparr>fn_create_biomarker_ratios = create_biomarker_ratios nm,
            fn_compare_biomarkers = cmp, fn_get_pvalues = pv\<rparr>"
  unfolding untouched_def
  using create_biomarker_ratios_same_on [of nm _ "columns raw", OF assms] by simp

lemma create_biomarker_ratios_Inl:
  assumes "create_biomarker_ratios nm f bs ref = Inl e"
  shows "\<exists>c \<in> set (bs @ [ref]). c \<notin> set (columns f) \<and> e = KeyError [c]"
  using assms
proof (induction bs arbitrary: f)
  case Nil
  then show ?case by simp
next
  case (Cons b bs)
  show ?case
  proof (cases "b \<in> set (columns f) \<and> ref \<in> set (columns f)")
    case True
    let ?f1 = "add_column f (nm b ref) (\<lambda>r. ratio_val (r b) (r ref))"
    from True Cons.prems have "create_biomarker_ratios nm ?f1 bs ref = Inl e"
      by (auto split: sum.splits)
    from Cons.IH [OF this] obtain c where c: "c \<in> set (bs @ [ref])"
      and nc: "c \<notin> set (columns ?f1)" and e: "e = KeyError [c]"
      by blast
    from nc have "c \<notin> set (columns f)"
      by (simp add: columns_add_column split: if_splits)
    with c e show ?thesis by auto
  next
    case False
    with Cons.prems show ?thesis by (auto split: if_splits)
  qed
qed

lemma create_biomarker_ratios_columns:
  assumes "create_biomarker_ratios nm f bs ref = Inr (f', names)"
  shows "\<exists>new. columns f' = columns f @ new \<and> set new = set names - set (columns f)"
  using assms
proof (induction bs arbitrary: f names)
  case Nil
  then show ?case by simp
next
  case (Cons b bs)
  let ?f1 = "add_column f (nm b ref) (\<lambda>r. ratio_val (r b) (r ref))"
  from Cons.prems obtain names' where
    rec: "create_biomarker_ratios nm ?f1 bs ref = Inr (f', names')"
    and names: "names = nm b ref # names'"
    by (rule create_biomarker_ratios_Cons_Inr)
  from Cons.IH [OF rec] obtain new1 where
    c: "columns f' = columns ?f1 @ new1" and n: "set new1 = set names' - set (columns ?f1)"
    by blast
  let ?new = "(if nm b ref \<in> set (columns f) then [] else [nm b ref]) @ new1"
  have "columns f' = columns f @ ?new"
    by (simp add: c columns_add_column)
  moreover have "set ?new = set names - set (columns f)"
    unfolding names using n by (auto simp: columns_add_column split: if_splits)
  ultimately show ?case by blast
qed

lemma create_biomarker_ratios_rows:
  assumes "create_biomarker_ratios nm f bs ref = Inr (f', names)"
    and "ref \<notin> (\<lambda>b. nm b ref) ` set bs"
    and "set bs \<inter> (\<lambda>b. nm b ref) ` set bs = {}"
    and "inj_on (\<lambda>b. nm b ref) (set bs)"
  shows "names = map (\<lambda>b. nm b ref) bs \<and>
         list_all2
           (\<lambda>ir ir'. fst ir' = fst ir \<and>
              (\<forall>c. c \<notin> (\<lambda>b. nm b ref) ` set bs \<longrightarrow> snd ir' c = snd ir c) \<and>
              (\<forall>b \<in> set bs. snd ir' (nm b ref) = ratio_val (snd ir b) (snd ir ref)))
           (rows f) (rows f')"
  using assms
proof (induction bs arbitrary: f names)
  case Nil
  then show ?case by (simp add: list_all2_refl)
next
  case (Cons b bs)
  let ?v = "\<lambda>r. ratio_val (r b) (r ref)"
  let ?f1 = "add_column f (nm b ref) ?v"
  let ?g = "\<lambda>ir. (fst ir, (snd ir)(nm b ref := ?v (snd ir)))"
  let ?N = "(\<lambda>b. nm b ref) ` set bs"
  from Cons.prems(1) obtain names' where
    rec: "create_biomarker_ratios nm ?f1 bs ref = Inr (f', names')"
    and names: "names = nm b ref # names'"
    by (rule create_biomarker_ratios_Cons_Inr)
  from Cons.prems have p1: "ref \<notin> ?N" and p2: "set bs \<inter> ?N = {}"
    and p3: "inj_on (\<lambda>b. nm b ref) (set bs)"
    and ref_b: "ref \<noteq> nm b ref"
    and bs_b: "\<forall>b' \<in> set (b # bs). b' \<noteq> nm b ref"
    and b_new: "b \<notin> set bs \<longrightarrow> nm b ref \<notin> ?N"
    by (auto simp: inj_on_def)
  from Cons.IH [OF rec p1 p2 p3] have n': "names' = map (\<lambda>b. nm b ref) bs"
    and l: "list_all2
           (\<lambda>ir ir'. fst ir' = fst ir \<and>
              (\<forall>c. c \<notin> ?N \<longrightarrow> snd ir' c = snd ir c) \<and>
              (\<forall>b \<in> set bs. snd ir' (nm b ref) = ratio_val (snd ir b) (snd ir ref)))
           (map ?g (rows f)) (rows f')"
    by (simp_all add: rows_add_column)
  have "list_all2
           (\<lambda>ir ir'. fst ir' = fst ir \<and>
              (\<forall>c. c \<notin> (\<lambda>b. nm b ref) ` set (b # bs) \<longrightarrow> snd ir' c = snd ir c) \<and>
              (\<forall>b' \<in> set (b # bs). snd ir' (nm b' ref) = ratio_val (snd ir b') (snd ir ref)))
           (rows f) (rows f')"
  proof (rule list_all2_mono [OF l [unfolded list_all2_map1]])
    fix ir ir'
    assume h: "fst ir' = fst (?g ir) \<and>
              (\<forall>c. c \<notin> ?N \<longrightarrow> snd ir' c = snd (?g ir) c) \<and>
              (\<forall>b \<in> set bs. snd ir' (nm b ref) = ratio_val (snd (?g ir) b) (snd (?g ir) ref))"
    have 1: "fst ir' = fst ir" using h by simp
    have 2: "snd ir' c = snd ir c" if "c \<notin> (\<lambda>b. nm b ref) ` set (b # bs)" for c
      using h that by simp
    have 3: "snd ir' (nm b' ref) = ratio_val (snd ir b') (snd ir ref)"
      if b': "b' \<in> set (b # bs)" for b'
    proof (cases "b' \<in> set bs")
      case True
      with h have "snd ir' (nm b' ref) = ratio_val (snd (?g ir) b') (snd (?g ir) ref)"
        by blast
      moreover from b' bs_b have "b' \<noteq> nm b ref" by blast
      ultimately show ?thesis using ref_b by simp
    next
      case False
      with b' have eq: "b' = b" by simp
      with False b_new have "nm b ref \<notin> ?N" by simp
      with h have "snd ir' (nm b ref) = snd (?g ir) (nm b ref)" by blast
      then show ?thesis by (simp add: eq)
    qed
    from 1 2 3 show "fst ir' = fst ir \<and>
              (\<forall>c. c \<notin> (\<lambda>b. nm b ref) ` set (b # bs) \<longrightarrow> snd ir' c = snd ir c) \<and>
              (\<forall>b' \<in> set (b # bs). snd ir' (nm b' ref) = ratio_val (snd ir b') (snd ir ref))"
      by blast
  qed
  with names n' show ?case by simp
qed

text \<open>
  C2.  On a table that has the biomarker columns and the reference column, with ratio
  labels that are new to the table and differ between biomarkers, the ratio construction
  succeeds whatever the values are, and returns the list of the new labels in the order
  of the biomarkers.  The rows and their index are those of the input, the columns of
  the input come first and are unchanged in every row, and the ratio of a biomarker in a
  row is missing when the reference value is missing or not positive and is the
  biomarker value divided by the reference value otherwise (missing when the biomarker
  value is missing).
\<close>

theorem create_biomarker_ratios_spec:
  assumes cols: "set bs \<subseteq> set (columns f)" "ref \<in> set (columns f)"
    and fresh: "\<forall>b \<in> set bs. nm b ref \<notin> set (columns f)"
    and inj: "inj_on (\<lambda>b. nm b ref) (set bs)"
  shows "\<exists>f' names.
           create_biomarker_ratios nm f bs ref = Inr (f', names) \<and>
           names = map (\<lambda>b. nm b ref) bs \<and>
           index f' = index f \<and>
           (\<exists>new. columns f' = columns f @ new \<and> set new = set names) \<and>
           (\<forall>k < len f.
              (\<forall>c \<in> set (columns f). snd (rows f' ! k) c = snd (rows f ! k) c) \<and>
              (\<forall>b \<in> set bs.
                 snd (rows f' ! k) (nm b ref) =
                   (case snd (rows f ! k) ref of
                      None \<Rightarrow> None
                    | Some d \<Rightarrow> if d \<le> 0 then None
                                else map_option (\<lambda>x. x / d) (snd (rows f ! k) b))))"
proof -
  let ?N = "(\<lambda>b. nm b ref) ` set bs"
  obtain f' names where ok: "create_biomarker_ratios nm f bs ref = Inr (f', names)"
  proof (cases "create_biomarker_ratios nm f bs ref")
    case (Inl e)
    from create_biomarker_ratios_Inl [OF Inl] cols have False by auto
    then show ?thesis ..
  next
    case (Inr p)
    with that show ?thesis by (cases p) blast
  qed
  from fresh cols have d1: "ref \<notin> ?N" and d2: "set bs \<inter> ?N = {}"
    by auto
  from create_biomarker_ratios_rows [OF ok d1 d2 inj]
  have names: "names = map (\<lambda>b. nm b ref) bs"
    and l: "list_all2
           (\<lambda>ir ir'. fst ir' = fst ir \<and>
              (\<forall>c. c \<notin> ?N \<longrightarrow> snd ir' c = snd ir c) \<and>
              (\<forall>b \<in> set bs. snd ir' (nm b ref) = ratio_val (snd ir b) (snd ir ref)))
           (rows f) (rows f')"
    by simp_all
  from l have len: "length (rows f) = length (rows f')"
    by (rule list_all2_lengthD)
  have nth: "fst (rows f' ! k) = fst (rows f ! k) \<and>
              (\<forall>c. c \<notin> ?N \<longrightarrow> snd (rows f' ! k) c = snd (rows f ! k) c) \<and>
              (\<forall>b \<in> set bs. snd (rows f' ! k) (nm b ref) =
                  ratio_val (snd (rows f ! k) b) (snd (rows f ! k) ref))"
    if "k < length (rows f)" for k
    using list_all2_nthD [OF l that] .
  have idx: "index f' = index f"
    unfolding index_def using len nth by (auto intro: nth_equalityI)
  from create_biomarker_ratios_columns [OF ok] fresh names
  have new: "\<exists>new. columns f' = columns f @ new \<and> set new = set names"
    by auto
  have vals: "(\<forall>c \<in> set (columns f). snd (rows f' ! k) c = snd (rows f ! k) c) \<and>
              (\<forall>b \<in> set bs.
                 snd (rows f' ! k) (nm b ref) =
                   (case snd (rows f ! k) ref of
                      None \<Rightarrow> None
                    | Some d \<Rightarrow> if d \<le> 0 then None
                                else map_option (\<lambda>x. x / d) (snd (rows f ! k) b)))"
    if k: "k < len f" for k
  proof -
    from k have k': "k < length (rows f)" by (simp add: len_def)
    have "snd (rows f' ! k) c = snd (rows f ! k) c" if "c \<in> set (columns f)" for c
    proof -
      from that fresh have "c \<notin> ?N" by auto
      with nth [OF k'] show ?thesis by blast
    qed
    moreover have "snd (rows f' ! k) (nm b ref) =
                   (case snd (rows f ! k) ref of
                      None \<Rightarrow> None
                    | Some d \<Rightarrow> if d \<le> 0 then None
                                else map_option (\<lambda>x. x / d) (snd (rows f ! k) b))"
      if "b \<in> set bs" for b
    proof -
      from nth [OF k'] that
      have "snd (rows f' ! k) (nm b ref) = ratio_val (snd (rows f ! k) b) (snd (rows f ! k) ref)"
        by blast
      then show ?thesis
        by (simp add: ratio_val_def split: option.splits)
    qed
    ultimately show ?thesis by blast
  qed
  from ok names idx new vals show ?thesis by blast
qed

theorem create_biomarker_ratios_spec_witness:
  "\<exists>f'. create_biomarker_ratios ratio_label demo_table [''A'', ''B''] ''R''
           = Inr (f', [''A_R'', ''B_R'']) \<and>
         index f' = [0, 1, 2, 3, 4] \<and>
         snd (rows f' ! 0) ''A_R'' = Some (1 / 2) \<and>
         snd (rows f' ! 3) ''A_R'' = None \<and>
         snd (rows f' ! 2) ''B_R'' = None \<and>
         snd (rows f' ! 4) ''B_R'' = Some 3 \<and>
         snd (rows f' ! 4) ''Y1'' = Some 3"
proof -
  have cols: "set [''A'', ''B''] \<subseteq> set (columns demo_table)" "''R'' \<in> set (columns demo_table)"
    by (simp_all add: demo_table_def)
  have fresh: "\<forall>b \<in> set [''A'', ''B'']. ratio_label b ''R'' \<notin> set (columns demo_table)"
    by (simp add: demo_table_def ratio_label_def)
  have inj: "inj_on (\<lambda>b. ratio_label b ''R'') (set [''A'', ''B''])"
    by (simp add: inj_on_def ratio_label_def)
  from create_biomarker_ratios_spec [of "[''A'', ''B'']" demo_table "''R''" ratio_label, OF cols fresh inj]
  obtain f' names where
    ok: "create_biomarker_ratios ratio_label demo_table [''A'', ''B''] ''R'' = Inr (f', names)"
    and names: "names = map (\<lambda>b. ratio_label b ''R'') [''A'', ''B'']"
    and idx: "index f' = index demo_table"
    and vals: "\<forall>k < len demo_table.
              (\<forall>c \<in> set (columns demo_table). snd (rows f' ! k) c = snd (rows demo_table ! k) c) \<and>
              (\<forall>b \<in> set [''A'', ''B''].
                 snd (rows f' ! k) (ratio_label b ''R'') =
                   (case snd (rows demo_table ! k) ''R'' of
                      None \<Rightarrow> None
                    | Some d \<Rightarrow> if d \<le> 0 then None
                                else map_option (\<lambda>x. x / d) (snd (rows demo_table ! k) b)))"
    by blast
  have l: "len demo_table = 5"
    by (simp add: len_def demo_table_def)
  from vals l have v0: "snd (rows f' ! 0) (ratio_label ''A'' ''R'') =
                   (case snd (rows demo_table ! 0) ''R'' of
                      None \<Rightarrow> None
                    | Some d \<Rightarrow> if d \<le> 0 then None
                                else map_option (\<lambda>x. x / d) (snd (rows demo_table ! 0) ''A''))"
    by simp
  from vals l have v3: "snd (rows f' ! 3) (ratio_label ''A'' ''R'') =
                   (case snd (rows demo_table ! 3) ''R'' of
                      None \<Rightarrow> None
                    | Some d \<Rightarrow> if d \<le> 0 then None
                                else map_option (\<lambda>x. x / d) (snd (rows demo_table ! 3) ''A''))"
    by simp
  from vals l have v2: "snd (rows f' ! 2) (ratio_label ''B'' ''R'') =
                   (case snd (rows demo_table ! 2) ''R'' of
                      None \<Rightarrow> None
                    | Some d \<Rightarrow> if d \<le> 0 then None
                                else map_option (\<lambda>x. x / d) (snd (rows demo_table ! 2) ''B''))"
    by simp
  from vals l have v4: "snd (rows f' ! 4) (ratio_label ''B'' ''R'') =
                   (case snd (rows demo_table ! 4) ''R'' of
                      None \<Rightarrow> None
                    | Some d \<Rightarrow> if d \<le> 0 then None
                                else map_option (\<lambda>x. x / d) (snd (rows demo_table ! 4) ''B''))"
    by simp
  from vals l have y4: "snd (rows f' ! 4) ''Y1'' = snd (rows demo_table ! 4) ''Y1''"
    by (simp add: demo_table_def)
  have "names = [''A_R'', ''B_R'']"
    by (simp add: names ratio_label_def)
  moreover have "index demo_table = [0, 1, 2, 3, 4]"
    by (simp add: index_def demo_table_def)
  then have "index f' = [0, 1, 2, 3, 4]"
    by (simp only: idx)
  moreover have "snd (rows f' ! 0) ''A_R'' = Some (1 / 2)"
    using v0 by (simp add: ratio_label_def demo_table_def mk_row_def)
  moreover have "snd (rows f' ! 3) ''A_R'' = None"
    using v3 by (simp add: ratio_label_def demo_table_def mk_row_def)
  moreover have "snd (rows f' ! 2) ''B_R'' = None"
    using v2 by (simp add: ratio_label_def demo_table_def mk_row_def)
  moreover have "snd (rows f' ! 4) ''B_R'' = Some 3"
    using v4 by (simp add: ratio_label_def demo_table_def mk_row_def)
  moreover have "snd (rows f' ! 4) ''Y1'' = Some 3"
    using y4 by (simp add: demo_table_def mk_row_def)
  ultimately show ?thesis using ok by blast
qed

section \<open>P-values\<close>

lemma finite_pairs_eq:
  "finite_pairs n nrm raw =
     map (\<lambda>p. (the (fst p), the (snd p))) (filter both_finite (take n (zip nrm raw)))"
proof -
  have "List.map_filter (\<lambda>p. case p of (Some x, Some y) \<Rightarrow> Some (x, y) | _ \<Rightarrow> None) zs =
          map (\<lambda>p. (the (fst p), the (snd p))) (filter both_finite zs)" for zs :: "(val \<times> val) list"
    by (induction zs) (auto simp: List.map_filter_simps both_finite_def split: option.splits)
  then show ?thesis by (simp add: finite_pairs_def)
qed

lemma length_finite_pairs:
  "length (finite_pairs n nrm raw) =
     card {i. i < n \<and> i < length nrm \<and> i < length raw \<and> nrm ! i \<noteq> None \<and> raw ! i \<noteq> None}"
proof -
  let ?zs = "take n (zip nrm raw)"
  have "length (finite_pairs n nrm raw) = card {i. i < length ?zs \<and> both_finite (?zs ! i)}"
    by (simp add: finite_pairs_eq length_filter_conv_card)
  also have "{i. i < length ?zs \<and> both_finite (?zs ! i)} =
      {i. i < n \<and> i < length nrm \<and> i < length raw \<and> nrm ! i \<noteq> None \<and> raw ! i \<noteq> None}"
    by (auto simp: both_finite_def)
  finally show ?thesis .
qed

lemma length_le_finite_pairs:
  "length (filter (\<lambda>p. fst p \<le> snd p) (finite_pairs n nrm raw)) =
     card {i. i < n \<and> i < length nrm \<and> i < length raw \<and>
              (\<exists>x y. nrm ! i = Some x \<and> raw ! i = Some y \<and> x \<le> y)}"
proof -
  let ?zs = "take n (zip nrm raw)"
  let ?Q = "\<lambda>p. both_finite p \<and> the (fst p) \<le> the (snd p)"
  have "length (filter (\<lambda>p. fst p \<le> snd p) (finite_pairs n nrm raw)) = length (filter ?Q ?zs)"
    by (simp add: finite_pairs_eq filter_map comp_def conj_commute)
  also have "\<dots> = card {i. i < length ?zs \<and> ?Q (?zs ! i)}"
    by (rule length_filter_conv_card)
  also have "{i. i < length ?zs \<and> ?Q (?zs ! i)} =
      {i. i < n \<and> i < length nrm \<and> i < length raw \<and>
              (\<exists>x y. nrm ! i = Some x \<and> raw ! i = Some y \<and> x \<le> y)}"
    by (auto simp: both_finite_def)
  finally show ?thesis .
qed

lemma empirical_p_pos: "0 < empirical_p n nrm raw"
  by (simp add: empirical_p_def Let_def add_pos_nonneg)

lemma empirical_p_le_1: "empirical_p n nrm raw \<le> 1"
proof -
  have "length (filter (\<lambda>p. fst p \<le> snd p) (finite_pairs n nrm raw))
          \<le> length (finite_pairs n nrm raw)"
    by (rule length_filter_le)
  then show ?thesis
    by (simp add: empirical_p_def Let_def)
qed

lemma empirical_p_card:
  "empirical_p n nrm raw =
     (1 + real (card (not_better n nrm raw))) / (real (card (counted n nrm raw)) + 1)"
proof -
  have "{i. i < n \<and> i < length nrm \<and> i < length raw \<and>
              (\<exists>x y. nrm ! i = Some x \<and> raw ! i = Some y \<and> x \<le> y)} = not_better n nrm raw"
    by (auto simp: not_better_def counted_def)
  then show ?thesis
    by (simp add: empirical_p_def Let_def length_finite_pairs length_le_finite_pairs counted_def)
qed

lemma counted_all:
  assumes "length nrm = n" "length raw = n" "None \<notin> set nrm" "None \<notin> set raw"
  shows "card (counted n nrm raw) = n"
proof -
  from assms have "counted n nrm raw = {..<n}"
    by (auto simp: counted_def in_set_conv_nth)
  then show ?thesis by simp
qed

lemma with_pvalues_sel [simp]:
  "p_value (with_pvalues n r p q) = p"
  "p_fdr (with_pvalues n r p q) = q"
  "n_effective (with_pvalues n r p q) = length (finite_pairs n (boot_norm r) (boot_raw r))"
  "boot_norm (with_pvalues n r p q) = boot_norm r"
  "boot_raw (with_pvalues n r p q) = boot_raw r"
  "c_biomarker (with_pvalues n r p q) = c_biomarker r"
  by (simp_all add: with_pvalues_def comparison.defs)

lemma length_family_pvalues [simp]: "length (family_pvalues n rs) = length rs"
  by (simp add: family_pvalues_def Let_def)

lemma family_pvalues_nth:
  assumes "i < length rs"
  shows "family_pvalues n rs ! i =
           with_pvalues n (rs ! i) (empirical_p n (boot_norm (rs ! i)) (boot_raw (rs ! i)))
             (fdr_bh (map (\<lambda>r. empirical_p n (boot_norm r) (boot_raw r)) rs) ! i)"
  using assms by (simp add: family_pvalues_def Let_def)

lemma truncate_with_pvalues [simp]: "comparison.truncate (with_pvalues n r p q) = r"
  by (simp add: with_pvalues_def comparison.defs)

text \<open>
  C4.  The p-value stage returns one family per result set and one record per result
  record, in order, each the input record with its p-values added.  For the record
  \<open>r\<close> of the input and the record \<open>q\<close> returned for it, with m the number of counted
  iterations of \<open>r\<close> (the first \<open>n_iter\<close> iterations whose two bootstrap values are both
  finite) and k the number of counted iterations where the normalized value is at most
  the raw one: the p-value of \<open>q\<close> is (1 + k) / (m + 1) and \<open>q\<close> reports m as its effective
  count.  With \<open>n_iter\<close> values per variant, all finite, m is \<open>n_iter\<close> and the p-value
  is (1 + k) / (n_iter + 1).  The p-value is greater than 0 and at most 1 in every case.
\<close>

theorem get_pvalues_empirical:
  "\<exists>out. get_pvalues all_res names n = Inr out \<and> length out = length all_res \<and>
     (\<forall>i < length all_res. length (out ! i) = length (all_res ! i) \<and>
        (\<forall>j < length (all_res ! i).
           let r = all_res ! i ! j; q = out ! i ! j;
               m = card (counted n (boot_norm r) (boot_raw r));
               k = card (not_better n (boot_norm r) (boot_raw r))
           in comparison.truncate q = r
            \<and> boot_norm q = boot_norm r \<and> boot_raw q = boot_raw r
            \<and> p_value q = (1 + real k) / (real m + 1)
            \<and> n_effective q = m
            \<and> (length (boot_norm r) = n \<and> length (boot_raw r) = n \<and>
                 None \<notin> set (boot_norm r) \<and> None \<notin> set (boot_raw r)
                 \<longrightarrow> m = n \<and> p_value q = (1 + real k) / (real n + 1))
            \<and> 0 < p_value q \<and> p_value q \<le> 1))"
proof -
  let ?out = "map (family_pvalues n) all_res"
  have main: "let r = all_res ! i ! j; q = ?out ! i ! j;
               m = card (counted n (boot_norm r) (boot_raw r));
               k = card (not_better n (boot_norm r) (boot_raw r))
           in comparison.truncate q = r
            \<and> boot_norm q = boot_norm r \<and> boot_raw q = boot_raw r
            \<and> p_value q = (1 + real k) / (real m + 1)
            \<and> n_effective q = m
            \<and> (length (boot_norm r) = n \<and> length (boot_raw r) = n \<and>
                 None \<notin> set (boot_norm r) \<and> None \<notin> set (boot_raw r)
                 \<longrightarrow> m = n \<and> p_value q = (1 + real k) / (real n + 1))
            \<and> 0 < p_value q \<and> p_value q \<le> 1"
    if i: "i < length all_res" and j: "j < length (all_res ! i)" for i j
  proof -
    let ?r = "all_res ! i ! j"
    let ?q = "?out ! i ! j"
    from i have "?q = family_pvalues n (all_res ! i) ! j" by simp
    note q = this [unfolded family_pvalues_nth [OF j]]
    have t: "comparison.truncate ?q = ?r"
      and bn: "boot_norm ?q = boot_norm ?r" and br: "boot_raw ?q = boot_raw ?r"
      by (simp_all only: q truncate_with_pvalues with_pvalues_sel)
    have p: "p_value ?q = empirical_p n (boot_norm ?r) (boot_raw ?r)"
      by (simp only: q with_pvalues_sel)
    have ne: "n_effective ?q = card (counted n (boot_norm ?r) (boot_raw ?r))"
      by (simp only: q with_pvalues_sel length_finite_pairs counted_def)
    have pc: "p_value ?q = (1 + real (card (not_better n (boot_norm ?r) (boot_raw ?r))))
                 / (real (card (counted n (boot_norm ?r) (boot_raw ?r))) + 1)"
      unfolding p by (rule empirical_p_card)
    have pos: "0 < p_value ?q" unfolding p by (rule empirical_p_pos)
    have le: "p_value ?q \<le> 1" unfolding p by (rule empirical_p_le_1)
    have full: "card (counted n (boot_norm ?r) (boot_raw ?r)) = n \<and>
        p_value ?q = (1 + real (card (not_better n (boot_norm ?r) (boot_raw ?r)))) / (real n + 1)"
      if "length (boot_norm ?r) = n \<and> length (boot_raw ?r) = n \<and>
                 None \<notin> set (boot_norm ?r) \<and> None \<notin> set (boot_raw ?r)"
    proof -
      from that have "card (counted n (boot_norm ?r) (boot_raw ?r)) = n"
        by (intro counted_all) simp_all
      with pc show ?thesis by simp
    qed
    from t bn br pc ne pos le full show ?thesis
      unfolding Let_def by blast
  qed
  have "get_pvalues all_res names n = Inr ?out"
    by (simp add: get_pvalues_def)
  moreover have "length ?out = length all_res"
    by simp
  moreover have "\<forall>i < length all_res. length (?out ! i) = length (all_res ! i)"
    by simp
  ultimately show ?thesis
    using main by blast
qed

lemma demo_p:
  "empirical_p 4 (boot_norm (demo_results ! 0 ! 0)) (boot_raw (demo_results ! 0 ! 0)) = 1 / 2"
  "empirical_p 4 (boot_norm (demo_results ! 0 ! 1)) (boot_raw (demo_results ! 0 ! 1)) = 1 / 5"
  "empirical_p 4 (boot_norm (demo_results ! 0 ! 2)) (boot_raw (demo_results ! 0 ! 2)) = 1"
  by (simp_all add: demo_results_def demo_comparison_def empirical_p_def finite_pairs_def
      List.map_filter_simps)

lemma demo_ps:
  "map (\<lambda>r. empirical_p 4 (boot_norm r) (boot_raw r)) (demo_results ! 0) = [1 / 2, 1 / 5, 1]"
  by (simp add: demo_results_def demo_comparison_def empirical_p_def finite_pairs_def
      List.map_filter_simps)

theorem get_pvalues_empirical_witness:
  "\<exists>out.
     get_pvalues demo_results [''A_R'', ''B_R'', ''C_R''] 4 = Inr out \<and>
     length out = 1 \<and> length (out ! 0) = 3 \<and>
     c_biomarker (out ! 0 ! 1) = ''B'' \<and>
     boot_norm (out ! 0 ! 1) = [Some (9 / 10), Some (9 / 10), Some (4 / 5), Some (9 / 10)] \<and>
     boot_raw (out ! 0 ! 1) = [Some (1 / 10), Some (1 / 5), Some (1 / 10), Some (1 / 10)] \<and>
     card (counted 4 (boot_norm (demo_results ! 0 ! 1)) (boot_raw (demo_results ! 0 ! 1))) = 4 \<and>
     card (not_better 4 (boot_norm (demo_results ! 0 ! 1)) (boot_raw (demo_results ! 0 ! 1))) = 0 \<and>
     n_effective (out ! 0 ! 1) = 4 \<and> p_value (out ! 0 ! 1) = 1 / 5 \<and>
     c_biomarker (out ! 0 ! 0) = ''A'' \<and>
     boot_norm (out ! 0 ! 0) = [Some (1 / 2), Some (3 / 5), None, Some (7 / 10)] \<and>
     n_effective (out ! 0 ! 0) = 3 \<and> p_value (out ! 0 ! 0) = 1 / 2 \<and>
     c_biomarker (out ! 0 ! 2) = ''C'' \<and> n_effective (out ! 0 ! 2) = 4 \<and>
     p_value (out ! 0 ! 2) = 1"
proof -
  let ?names = "[''A_R'', ''B_R'', ''C_R'']"
  have l: "length demo_results = 1" "length (demo_results ! 0) = 3"
    by (simp_all add: demo_results_def)
  from get_pvalues_empirical [of demo_results ?names 4]
  obtain out where out: "get_pvalues demo_results ?names 4 = Inr out"
    and len: "length out = length demo_results"
    and props: "\<forall>i < length demo_results. length (out ! i) = length (demo_results ! i) \<and>
        (\<forall>j < length (demo_results ! i).
           let r = demo_results ! i ! j; q = out ! i ! j;
               m = card (counted 4 (boot_norm r) (boot_raw r));
               k = card (not_better 4 (boot_norm r) (boot_raw r))
           in comparison.truncate q = r
            \<and> boot_norm q = boot_norm r \<and> boot_raw q = boot_raw r
            \<and> p_value q = (1 + real k) / (real m + 1)
            \<and> n_effective q = m
            \<and> (length (boot_norm r) = 4 \<and> length (boot_raw r) = 4 \<and>
                 None \<notin> set (boot_norm r) \<and> None \<notin> set (boot_raw r)
                 \<longrightarrow> m = 4 \<and> p_value q = (1 + real k) / (real 4 + 1))
            \<and> 0 < p_value q \<and> p_value q \<le> 1)"
    by blast
  from props l have l0: "length (out ! 0) = 3" by simp
  have pj: "comparison.truncate (out ! 0 ! j) = demo_results ! 0 ! j
            \<and> boot_norm (out ! 0 ! j) = boot_norm (demo_results ! 0 ! j)
            \<and> boot_raw (out ! 0 ! j) = boot_raw (demo_results ! 0 ! j)
            \<and> p_value (out ! 0 ! j) =
                (1 + real (card (not_better 4 (boot_norm (demo_results ! 0 ! j))
                                   (boot_raw (demo_results ! 0 ! j)))))
                / (real (card (counted 4 (boot_norm (demo_results ! 0 ! j))
                                 (boot_raw (demo_results ! 0 ! j)))) + 1)
            \<and> n_effective (out ! 0 ! j) =
                card (counted 4 (boot_norm (demo_results ! 0 ! j)) (boot_raw (demo_results ! 0 ! j)))
            \<and> (length (boot_norm (demo_results ! 0 ! j)) = 4 \<and>
               length (boot_raw (demo_results ! 0 ! j)) = 4 \<and>
               None \<notin> set (boot_norm (demo_results ! 0 ! j)) \<and>
               None \<notin> set (boot_raw (demo_results ! 0 ! j))
               \<longrightarrow> card (counted 4 (boot_norm (demo_results ! 0 ! j))
                           (boot_raw (demo_results ! 0 ! j))) = 4)"
    if "j < 3" for j
  proof -
    from props l that have "let r = demo_results ! 0 ! j; q = out ! 0 ! j;
               m = card (counted 4 (boot_norm r) (boot_raw r));
               k = card (not_better 4 (boot_norm r) (boot_raw r))
           in comparison.truncate q = r
            \<and> boot_norm q = boot_norm r \<and> boot_raw q = boot_raw r
            \<and> p_value q = (1 + real k) / (real m + 1)
            \<and> n_effective q = m
            \<and> (length (boot_norm r) = 4 \<and> length (boot_raw r) = 4 \<and>
                 None \<notin> set (boot_norm r) \<and> None \<notin> set (boot_raw r)
                 \<longrightarrow> m = 4 \<and> p_value q = (1 + real k) / (real 4 + 1))
            \<and> 0 < p_value q \<and> p_value q \<le> 1"
      by simp
    then show ?thesis unfolding Let_def by blast
  qed
  have out_eq: "out = map (family_pvalues 4) demo_results"
    using out by (simp add: get_pvalues_def)
  have q: "out ! 0 ! j = with_pvalues 4 (demo_results ! 0 ! j)
              (empirical_p 4 (boot_norm (demo_results ! 0 ! j)) (boot_raw (demo_results ! 0 ! j)))
              (fdr_bh (map (\<lambda>r. empirical_p 4 (boot_norm r) (boot_raw r)) (demo_results ! 0)) ! j)"
    if "j < 3" for j
    using that l by (simp add: out_eq family_pvalues_nth)
  have p: "p_value (out ! 0 ! 0) = 1 / 2" "p_value (out ! 0 ! 1) = 1 / 5"
    "p_value (out ! 0 ! 2) = 1"
    by (simp_all only: q with_pvalues_sel demo_p)
  have ne: "n_effective (out ! 0 ! 0) = 3" "n_effective (out ! 0 ! 2) = 4"
    by (simp_all add: q demo_results_def demo_comparison_def finite_pairs_def
        List.map_filter_simps)
  from pj [of 0] pj [of 1] pj [of 2]
  have b: "c_biomarker (out ! 0 ! 0) = ''A''" "c_biomarker (out ! 0 ! 1) = ''B''"
    "c_biomarker (out ! 0 ! 2) = ''C''"
    and bn: "boot_norm (out ! 0 ! 1) = [Some (9 / 10), Some (9 / 10), Some (4 / 5), Some (9 / 10)]"
     "boot_raw (out ! 0 ! 1) = [Some (1 / 10), Some (1 / 5), Some (1 / 10), Some (1 / 10)]"
     "boot_norm (out ! 0 ! 0) = [Some (1 / 2), Some (3 / 5), None, Some (7 / 10)]"
    by (simp_all add: q demo_results_def demo_comparison_def)
  have fin: "length (boot_norm (demo_results ! 0 ! 1)) = 4 \<and>
               length (boot_raw (demo_results ! 0 ! 1)) = 4 \<and>
               None \<notin> set (boot_norm (demo_results ! 0 ! 1)) \<and>
               None \<notin> set (boot_raw (demo_results ! 0 ! 1))"
    by (simp add: demo_results_def demo_comparison_def)
  with pj [of 1] have m: "card (counted 4 (boot_norm (demo_results ! 0 ! 1))
                           (boot_raw (demo_results ! 0 ! 1))) = 4"
    and ne1: "n_effective (out ! 0 ! 1) = 4"
    and p1: "p_value (out ! 0 ! 1) =
                (1 + real (card (not_better 4 (boot_norm (demo_results ! 0 ! 1))
                                   (boot_raw (demo_results ! 0 ! 1)))))
                / (real (card (counted 4 (boot_norm (demo_results ! 0 ! 1))
                                 (boot_raw (demo_results ! 0 ! 1)))) + 1)"
    by simp_all
  from p1 have k: "card (not_better 4 (boot_norm (demo_results ! 0 ! 1))
                      (boot_raw (demo_results ! 0 ! 1))) = 0"
    unfolding m p(2) by simp
  from out len l l0 b bn m k ne1 ne p show ?thesis
    by (intro exI [of _ out]) simp
qed

section \<open>The false-discovery-rate correction\<close>

lemma cummin_Cons:
  "cummin (x # xs) = (if xs = [] then [x] else min x (cummin xs ! 0) # cummin xs)"
  by (cases xs) (auto split: list.splits)

lemma length_cummin [simp]: "length (cummin xs) = length xs"
  by (induction xs) (auto split: list.splits)

declare cummin.simps(2) [simp del]

lemma cummin_attained:
  "k < length xs \<Longrightarrow> \<exists>j. k \<le> j \<and> j < length xs \<and> cummin xs ! k = xs ! j"
proof (induction xs arbitrary: k)
  case Nil
  then show ?case by simp
next
  case (Cons x xs)
  show ?case
  proof (cases "xs = []")
    case True
    with Cons.prems show ?thesis by (auto simp: cummin_Cons)
  next
    case False
    then have l: "0 < length xs" by simp
    show ?thesis
    proof (cases k)
      case 0
      from Cons.IH [OF l] obtain j where j: "j < length xs" "cummin xs ! 0 = xs ! j"
        by blast
      show ?thesis
      proof (cases "x \<le> cummin xs ! 0")
        case True
        with False 0 have "cummin (x # xs) ! k = (x # xs) ! 0"
          by (simp add: cummin_Cons min_def)
        with 0 show ?thesis by auto
      next
        case N: False
        with False 0 j have "cummin (x # xs) ! k = (x # xs) ! Suc j"
          by (simp add: cummin_Cons min_def)
        with 0 j show ?thesis by (intro exI [of _ "Suc j"]) simp
      qed
    next
      case (Suc k')
      with Cons.prems have "k' < length xs" by simp
      from Cons.IH [OF this] obtain j where
        j: "k' \<le> j" "j < length xs" "cummin xs ! k' = xs ! j"
        by blast
      with False Suc show ?thesis
        by (intro exI [of _ "Suc j"]) (simp add: cummin_Cons)
    qed
  qed
qed

lemma cummin_le:
  "k \<le> j \<Longrightarrow> j < length xs \<Longrightarrow> cummin xs ! k \<le> xs ! j"
proof (induction xs arbitrary: k j)
  case Nil
  then show ?case by simp
next
  case (Cons x xs)
  show ?case
  proof (cases "xs = []")
    case True
    with Cons.prems show ?thesis by (simp add: cummin_Cons)
  next
    case False
    show ?thesis
    proof (cases j)
      case 0
      with Cons.prems False show ?thesis by (simp add: cummin_Cons)
    next
      case (Suc j')
      with Cons.prems have j': "j' < length xs" by simp
      show ?thesis
      proof (cases k)
        case 0
        have "cummin xs ! 0 \<le> xs ! j'"
          by (rule Cons.IH) (use j' in simp_all)
        with False 0 Suc show ?thesis
          by (simp add: cummin_Cons min_le_iff_disj)
      next
        case k: (Suc k')
        with Cons.prems Suc have "k' \<le> j'" by simp
        from Cons.IH [OF this j'] False k Suc show ?thesis
          by (simp add: cummin_Cons)
      qed
    qed
  qed
qed

lemma cummin_ge:
  assumes "k < length xs" and "\<And>j. k \<le> j \<Longrightarrow> j < length xs \<Longrightarrow> lb \<le> xs ! j"
  shows "lb \<le> cummin xs ! k"
  using cummin_attained [OF assms(1)] assms(2) by auto

lemma cummin_mono:
  assumes "k \<le> l" and "l < length xs"
  shows "cummin xs ! k \<le> cummin xs ! l"
proof -
  from cummin_attained [OF assms(2)] obtain j where
    j: "l \<le> j" "j < length xs" "cummin xs ! l = xs ! j"
    by blast
  from assms(1) j(1) have "k \<le> j" by simp
  from cummin_le [OF this j(2)] j(3) show ?thesis by simp
qed

lemma pos_less:
  "i \<in> set xs \<Longrightarrow> pos i xs < length xs"
  unfolding pos_def by (induction xs) auto

lemma nth_pos:
  "i \<in> set xs \<Longrightarrow> xs ! pos i xs = i"
  unfolding pos_def by (induction xs) auto

lemma length_bh_order [simp]: "length (bh_order ps) = length ps"
  by (simp add: bh_order_def)

lemma set_bh_order [simp]: "set (bh_order ps) = {0..<length ps}"
  by (simp add: bh_order_def)

lemma sorted_bh_order: "sorted (map (\<lambda>i. ps ! i) (bh_order ps))"
  unfolding bh_order_def by (rule sorted_sort_key)

lemma bh_order_mono:
  assumes "k \<le> l" and "l < length ps"
  shows "ps ! (bh_order ps ! k) \<le> ps ! (bh_order ps ! l)"
proof -
  from assms have "map (\<lambda>i. ps ! i) (bh_order ps) ! k \<le> map (\<lambda>i. ps ! i) (bh_order ps) ! l"
    by (intro sorted_nth_mono [OF sorted_bh_order]) simp_all
  with assms show ?thesis by simp
qed

lemma bh_order_nth_less:
  assumes "k < length ps"
  shows "bh_order ps ! k < length ps"
proof -
  from assms have "bh_order ps ! k \<in> set (bh_order ps)"
    by (intro nth_mem) simp
  then show ?thesis by simp
qed

lemma length_bh_scaled [simp]: "length (bh_scaled ps) = length ps"
  by (simp add: bh_scaled_def)

lemma bh_scaled_nth:
  "k < length ps \<Longrightarrow>
     bh_scaled ps ! k = ps ! (bh_order ps ! k) * real (length ps) / real (k + 1)"
  by (simp add: bh_scaled_def)

lemma length_fdr_bh [simp]: "length (fdr_bh ps) = length ps"
  by (simp add: fdr_bh_def Let_def)

lemma bh_pos:
  assumes "i < length ps"
  shows "pos i (bh_order ps) < length ps" and "bh_order ps ! pos i (bh_order ps) = i"
proof -
  from assms have i: "i \<in> set (bh_order ps)" by simp
  from pos_less [OF i] show "pos i (bh_order ps) < length ps" by simp
  from nth_pos [OF i] show "bh_order ps ! pos i (bh_order ps) = i" .
qed

lemma fdr_bh_nth:
  assumes "i < length ps"
  shows "fdr_bh ps ! i = min 1 (cummin (bh_scaled ps) ! pos i (bh_order ps))"
  using assms bh_pos(1) [OF assms] by (simp add: fdr_bh_def Let_def)

lemma bh_scaled_ge:
  assumes nonneg: "\<forall>p \<in> set ps. 0 \<le> p" and k: "k < length ps"
  shows "ps ! (bh_order ps ! k) \<le> bh_scaled ps ! k"
proof -
  let ?p = "ps ! (bh_order ps ! k)"
  from bh_order_nth_less [OF k] nonneg have p0: "0 \<le> ?p" by simp
  from k have "real (k + 1) \<le> real (length ps)" by simp
  then have "1 \<le> real (length ps) / real (k + 1)"
    by (simp add: le_divide_eq)
  with p0 have "?p * 1 \<le> ?p * (real (length ps) / real (k + 1))"
    by (rule mult_left_mono [rotated])
  then show ?thesis by (simp add: bh_scaled_nth [OF k])
qed

lemma fdr_bh_ge:
  assumes range: "\<forall>p \<in> set ps. 0 \<le> p \<and> p \<le> 1" and i: "i < length ps"
  shows "ps ! i \<le> fdr_bh ps ! i"
proof -
  let ?k = "pos i (bh_order ps)"
  note k = bh_pos [OF i]
  from range have nonneg: "\<forall>p \<in> set ps. 0 \<le> p" by blast
  have "ps ! i \<le> cummin (bh_scaled ps) ! ?k"
  proof (rule cummin_ge)
    show "?k < length (bh_scaled ps)" using k(1) by simp
  next
    fix j assume "?k \<le> j" and "j < length (bh_scaled ps)"
    then have j: "j < length ps" by simp
    from bh_order_mono [OF \<open>?k \<le> j\<close> j] k(2) have "ps ! i \<le> ps ! (bh_order ps ! j)"
      by simp
    also have "\<dots> \<le> bh_scaled ps ! j"
      by (rule bh_scaled_ge [OF nonneg j])
    finally show "ps ! i \<le> bh_scaled ps ! j" .
  qed
  moreover from range i have "ps ! i \<le> 1" by simp
  ultimately show ?thesis by (simp add: fdr_bh_nth [OF i])
qed

lemma fdr_bh_le_1:
  assumes "i < length ps"
  shows "fdr_bh ps ! i \<le> 1"
  by (simp add: fdr_bh_nth [OF assms])

lemma bh_cummin_mono:
  assumes nonneg: "\<forall>p \<in> set ps. 0 \<le> p"
    and k: "k < length ps" and l: "l < length ps"
    and le: "ps ! (bh_order ps ! k) \<le> ps ! (bh_order ps ! l)"
  shows "cummin (bh_scaled ps) ! k \<le> cummin (bh_scaled ps) ! l"
proof (cases "k \<le> l")
  case True
  then show ?thesis by (rule cummin_mono) (use l in simp)
next
  case False
  then have lk: "l < k" by simp
  then have "l \<le> k" by simp
  from bh_order_mono [OF this k] le
  have eq: "ps ! (bh_order ps ! l) = ps ! (bh_order ps ! k)" by simp
  from l have "l < length (bh_scaled ps)" by simp
  from cummin_attained [OF this] obtain j where
    j: "l \<le> j" "j < length ps" "cummin (bh_scaled ps) ! l = bh_scaled ps ! j"
    by auto
  show ?thesis
  proof (cases "k \<le> j")
    case True
    then have "cummin (bh_scaled ps) ! k \<le> bh_scaled ps ! j"
      by (rule cummin_le) (use j in simp)
    with j(3) show ?thesis by simp
  next
    case F: False
    then have jk: "j \<le> k" by simp
    let ?p = "ps ! (bh_order ps ! k)"
    from bh_order_mono [OF j(1) j(2)] bh_order_mono [OF jk k] eq
    have pj: "ps ! (bh_order ps ! j) = ?p" by simp
    from bh_order_nth_less [OF k] nonneg have p0: "0 \<le> ?p" by simp
    have "cummin (bh_scaled ps) ! k \<le> bh_scaled ps ! k"
      by (rule cummin_le) (use k in simp_all)
    also have "\<dots> = ?p * real (length ps) / real (k + 1)"
      by (rule bh_scaled_nth [OF k])
    also have "\<dots> \<le> ?p * real (length ps) / real (j + 1)"
      by (rule divide_left_mono) (use jk p0 in simp_all)
    also have "\<dots> = bh_scaled ps ! j"
      by (simp add: bh_scaled_nth [OF j(2)] pj)
    finally show ?thesis by (simp add: j(3))
  qed
qed

lemma fdr_bh_mono:
  assumes nonneg: "\<forall>p \<in> set ps. 0 \<le> p"
    and i: "i < length ps" and j: "j < length ps"
    and le: "ps ! i \<le> ps ! j"
  shows "fdr_bh ps ! i \<le> fdr_bh ps ! j"
proof -
  note ki = bh_pos [OF i] and kj = bh_pos [OF j]
  from le ki(2) kj(2)
  have "ps ! (bh_order ps ! pos i (bh_order ps)) \<le> ps ! (bh_order ps ! pos j (bh_order ps))"
    by simp
  from bh_cummin_mono [OF nonneg ki(1) kj(1) this]
  show ?thesis
    by (simp add: fdr_bh_nth [OF i] fdr_bh_nth [OF j] min_le_iff_disj)
qed

text \<open>
  C5.  In every family (the result set of one outcome and one panel) that the p-value
  stage returns, the adjusted p-value of a record is at least its p-value, and a record
  whose p-value is at most that of another record of the family has an adjusted p-value
  at most that of the other.
\<close>

theorem get_pvalues_fdr:
  "\<exists>out. get_pvalues all_res names n = Inr out \<and>
     map (map p_value) out = map (map (\<lambda>r. empirical_p n (boot_norm r) (boot_raw r))) all_res \<and>
     (\<forall>fam \<in> set out. \<forall>r \<in> set fam.
        p_value r \<le> p_fdr r \<and>
        (\<forall>r' \<in> set fam. p_value r \<le> p_value r' \<longrightarrow> p_fdr r \<le> p_fdr r'))"
proof -
  have 1: "map p_value (family_pvalues n rs) = map (\<lambda>r. empirical_p n (boot_norm r) (boot_raw r)) rs"
    for rs
    by (rule nth_equalityI) (simp_all add: family_pvalues_nth)
  have 2: "p_value r \<le> p_fdr r \<and>
        (\<forall>r' \<in> set fam. p_value r \<le> p_value r' \<longrightarrow> p_fdr r \<le> p_fdr r')"
    if fam: "fam \<in> set (map (family_pvalues n) all_res)" and r: "r \<in> set fam" for fam r
  proof -
    from fam obtain rs where fam_eq: "fam = family_pvalues n rs" by auto
    let ?ps = "map (\<lambda>r. empirical_p n (boot_norm r) (boot_raw r)) rs"
    have range: "\<forall>p \<in> set ?ps. 0 \<le> p \<and> p \<le> 1"
      using empirical_p_pos empirical_p_le_1 by (auto intro: less_imp_le)
    then have nonneg: "\<forall>p \<in> set ?ps. 0 \<le> p" by blast
    from r obtain i where i: "i < length rs" and r_eq: "r = family_pvalues n rs ! i"
      unfolding fam_eq in_set_conv_nth by auto
    from i have i': "i < length ?ps" by simp
    have pr: "p_value r = ?ps ! i" and qr: "p_fdr r = fdr_bh ?ps ! i"
      using i by (simp_all add: r_eq family_pvalues_nth)
    from fdr_bh_ge [OF range i'] have a: "p_value r \<le> p_fdr r"
      by (simp only: pr qr)
    have b: "p_fdr r \<le> p_fdr r'" if r': "r' \<in> set fam" and le: "p_value r \<le> p_value r'" for r'
    proof -
      from r' obtain j where j: "j < length rs" and r'_eq: "r' = family_pvalues n rs ! j"
        unfolding fam_eq in_set_conv_nth by auto
      from j have j': "j < length ?ps" by simp
      have pr': "p_value r' = ?ps ! j" and qr': "p_fdr r' = fdr_bh ?ps ! j"
        using j by (simp_all add: r'_eq family_pvalues_nth)
      from le have "?ps ! i \<le> ?ps ! j" by (simp only: pr pr')
      from fdr_bh_mono [OF nonneg i' j' this] show ?thesis by (simp only: qr qr')
    qed
    from a b show ?thesis by blast
  qed
  have "get_pvalues all_res names n = Inr (map (family_pvalues n) all_res)"
    by (simp add: get_pvalues_def)
  moreover have "map (map p_value) (map (family_pvalues n) all_res) =
      map (map (\<lambda>r. empirical_p n (boot_norm r) (boot_raw r))) all_res"
    by (simp add: 1)
  ultimately show ?thesis
    using 2 by blast
qed

lemma demo_fdr: "fdr_bh [1 / 2, 1 / 5, 1] = [3 / 4, 3 / 5, 1]"
  by (simp add: fdr_bh_def bh_scaled_def bh_order_def pos_def cummin.simps
      upt_rec [of 0] upt_rec [of 1] upt_rec [of 2])

theorem get_pvalues_fdr_witness:
  "\<exists>out fam r r'.
     get_pvalues demo_results [''A_R'', ''B_R'', ''C_R''] 4 = Inr out \<and>
     fam \<in> set out \<and> r \<in> set fam \<and> r' \<in> set fam \<and>
     c_biomarker r = ''B'' \<and> c_biomarker r' = ''A'' \<and>
     p_value r = 1 / 5 \<and> p_value r' = 1 / 2 \<and> p_value r \<le> p_value r' \<and>
     p_fdr r = 3 / 5 \<and> p_fdr r' = 3 / 4 \<and>
     p_value r \<le> p_fdr r \<and> p_value r' \<le> p_fdr r' \<and> p_fdr r \<le> p_fdr r'"
proof -
  from get_pvalues_fdr [of demo_results "[''A_R'', ''B_R'', ''C_R'']" 4]
  obtain out where out: "get_pvalues demo_results [''A_R'', ''B_R'', ''C_R''] 4 = Inr out"
    and props: "\<forall>fam \<in> set out. \<forall>r \<in> set fam.
        p_value r \<le> p_fdr r \<and>
        (\<forall>r' \<in> set fam. p_value r \<le> p_value r' \<longrightarrow> p_fdr r \<le> p_fdr r')"
    by blast
  define fam where "fam = family_pvalues 4 (demo_results ! 0)"
  define r where "r = fam ! 1"
  define r' where "r' = fam ! 0"
  from out have fam: "fam \<in> set out"
    by (auto simp: get_pvalues_def fam_def demo_results_def)
  have r: "r \<in> set fam"
    unfolding r_def by (rule nth_mem) (simp add: fam_def demo_results_def)
  have r': "r' \<in> set fam"
    unfolding r'_def by (rule nth_mem) (simp add: fam_def demo_results_def)
  have r_eq: "r = with_pvalues 4 (demo_results ! 0 ! 1)
                    (empirical_p 4 (boot_norm (demo_results ! 0 ! 1)) (boot_raw (demo_results ! 0 ! 1)))
                    (fdr_bh (map (\<lambda>r. empirical_p 4 (boot_norm r) (boot_raw r)) (demo_results ! 0)) ! 1)"
    unfolding r_def fam_def by (rule family_pvalues_nth) (simp add: demo_results_def)
  have r'_eq: "r' = with_pvalues 4 (demo_results ! 0 ! 0)
                    (empirical_p 4 (boot_norm (demo_results ! 0 ! 0)) (boot_raw (demo_results ! 0 ! 0)))
                    (fdr_bh (map (\<lambda>r. empirical_p 4 (boot_norm r) (boot_raw r)) (demo_results ! 0)) ! 0)"
    unfolding r'_def fam_def by (rule family_pvalues_nth) (simp add: demo_results_def)
  have b: "c_biomarker r = ''B''" "c_biomarker r' = ''A''"
    by (simp_all add: r_eq r'_eq demo_results_def demo_comparison_def)
  have p: "p_value r = 1 / 5" "p_value r' = 1 / 2"
    by (simp_all only: r_eq r'_eq with_pvalues_sel demo_p)
  have q: "p_fdr r = 3 / 5" "p_fdr r' = 3 / 4"
    by (simp_all only: r_eq r'_eq with_pvalues_sel demo_ps demo_fdr) simp_all
  from p have le: "p_value r \<le> p_value r'" by simp
  from props fam r r' le have "p_value r \<le> p_fdr r \<and> p_value r' \<le> p_fdr r' \<and> p_fdr r \<le> p_fdr r'"
    by blast
  with out fam r r' b p q le show ?thesis by blast
qed

section \<open>Model comparison\<close>

lemma draw_props:
  assumes "draw nxt m k g = (idx, g')"
  shows "length idx = k \<and> (0 < m \<longrightarrow> (\<forall>i \<in> set idx. i < m))"
  using assms
proof (induction k arbitrary: g idx g')
  case 0
  then show ?case by simp
next
  case (Suc k)
  obtain w g1 where n: "nxt g = (w, g1)" by (cases "nxt g")
  obtain idx1 g2 where d: "draw nxt m k g1 = (idx1, g2)" by (cases "draw nxt m k g1")
  from Suc.prems n d have idx: "idx = w mod m # idx1" by simp
  from Suc.IH [OF d] show ?case by (simp add: idx)
qed

lemma length_draws [simp]: "length (draws nxt m k g) = k"
  by (induction k arbitrary: g) (auto split: prod.splits)

lemma draws_props:
  assumes "idx \<in> set (draws nxt m k g)"
  shows "length idx = m \<and> (0 < m \<longrightarrow> (\<forall>i \<in> set idx. i < m))"
  using assms
proof (induction k arbitrary: g)
  case 0
  then show ?case by simp
next
  case (Suc k)
  obtain idx0 g1 where d: "draw nxt m m g = (idx0, g1)" by (cases "draw nxt m m g")
  from Suc.prems d have "idx = idx0 \<or> idx \<in> set (draws nxt m k g1)" by simp
  then show ?case
  proof
    assume "idx = idx0"
    with draw_props [OF d] show ?thesis by simp
  next
    assume "idx \<in> set (draws nxt m k g1)"
    then show ?thesis by (rule Suc.IH)
  qed
qed

lemma bootstrap_eq:
  "bootstrap nxt raw nrm k g =
     ((map (\<lambda>idx. r2 (ols (resample raw idx))) (draws nxt (length raw) k g),
       map (\<lambda>idx. r2 (ols (resample nrm idx))) (draws nxt (length raw) k g)),
      after_draws nxt (length raw) k g)"
  by (induction k arbitrary: g) (auto simp: Let_def split: prod.splits)

lemma length_points [simp]: "length (points rs x y) = length rs"
  by (simp add: points_def)

lemma compare_one_Inr:
  assumes "compare_one nxt f b bn refprot outcome n g = Inr (rec, g1)"
  shows "set [b, bn, refprot, outcome] \<subseteq> set (columns f)"
    and "complete_cases f b bn outcome \<noteq> []"
    and "rec = \<lparr>c_biomarker = b, c_normalized = bn, c_outcome = outcome,
                n_obs = length (complete_cases f b bn outcome),
                fit_raw = ols (points (complete_cases f b bn outcome) b outcome),
                fit_norm = ols (points (complete_cases f b bn outcome) bn outcome),
                boot_raw = map (\<lambda>idx. r2 (ols (resample (points (complete_cases f b bn outcome) b outcome) idx)))
                             (draws nxt (length (complete_cases f b bn outcome)) n g),
                boot_norm = map (\<lambda>idx. r2 (ols (resample (points (complete_cases f b bn outcome) bn outcome) idx)))
                             (draws nxt (length (complete_cases f b bn outcome)) n g)\<rparr>"
    and "g1 = after_draws nxt (length (complete_cases f b bn outcome)) n g"
proof -
  from assms have nomiss: "filter (\<lambda>c. c \<notin> set (columns f)) [b, bn, refprot, outcome] = []"
    by (cases "filter (\<lambda>c. c \<notin> set (columns f)) [b, bn, refprot, outcome]")
       (simp_all add: compare_one_def)
  then show "set [b, bn, refprot, outcome] \<subseteq> set (columns f)"
    unfolding filter_empty_conv by auto
  from assms nomiss show cc: "complete_cases f b bn outcome \<noteq> []"
    by (auto simp: compare_one_def Let_def split: if_splits)
  from assms nomiss cc show "rec = \<lparr>c_biomarker = b, c_normalized = bn, c_outcome = outcome,
                n_obs = length (complete_cases f b bn outcome),
                fit_raw = ols (points (complete_cases f b bn outcome) b outcome),
                fit_norm = ols (points (complete_cases f b bn outcome) bn outcome),
                boot_raw = map (\<lambda>idx. r2 (ols (resample (points (complete_cases f b bn outcome) b outcome) idx)))
                             (draws nxt (length (complete_cases f b bn outcome)) n g),
                boot_norm = map (\<lambda>idx. r2 (ols (resample (points (complete_cases f b bn outcome) bn outcome) idx)))
                             (draws nxt (length (complete_cases f b bn outcome)) n g)\<rparr>"
    and "g1 = after_draws nxt (length (complete_cases f b bn outcome)) n g"
    by (simp_all add: compare_one_def Let_def bootstrap_eq)
qed

lemma compare_one_ok:
  assumes "set [b, bn, refprot, outcome] \<subseteq> set (columns f)"
    and "complete_cases f b bn outcome \<noteq> []"
  shows "\<exists>rec g1. compare_one nxt f b bn refprot outcome n g = Inr (rec, g1)"
proof -
  from assms(1) have "filter (\<lambda>c. c \<notin> set (columns f)) [b, bn, refprot, outcome] = []"
    unfolding filter_empty_conv by auto
  with assms(2) show ?thesis
    by (simp add: compare_one_def Let_def bootstrap_eq)
qed

lemma compare_loop_Inr:
  assumes "compare_loop nxt f ps refprot outcome n g = Inr (res, g')"
  shows "length res = length ps \<and>
         (\<forall>k < length ps. \<exists>g1.
            compare_one nxt f (fst (ps ! k)) (snd (ps ! k)) refprot outcome n
              (start_states nxt f ps outcome n g ! k) = Inr (res ! k, g1))"
  using assms
proof (induction ps arbitrary: g res)
  case Nil
  then show ?case by simp
next
  case (Cons p ps)
  from Cons.prems obtain r g1 rs where
    one: "compare_one nxt f (fst p) (snd p) refprot outcome n g = Inr (r, g1)"
    and rest: "compare_loop nxt f ps refprot outcome n g1 = Inr (rs, g')"
    and res: "res = r # rs"
    by (auto split: sum.splits)
  from compare_one_Inr(4) [OF one]
  have g1: "g1 = after_draws nxt (length (complete_cases f (fst p) (snd p) outcome)) n g" .
  note ih = Cons.IH [OF rest]
  have "\<exists>g2. compare_one nxt f (fst ((p # ps) ! k)) (snd ((p # ps) ! k)) refprot outcome n
              (start_states nxt f (p # ps) outcome n g ! k) = Inr (res ! k, g2)"
    if "k < length (p # ps)" for k
  proof (cases k)
    case 0
    with one res show ?thesis by simp
  next
    case (Suc k')
    with that have "k' < length ps" by simp
    with ih obtain g2 where
      "compare_one nxt f (fst (ps ! k')) (snd (ps ! k')) refprot outcome n
              (start_states nxt f ps outcome n g1 ! k') = Inr (rs ! k', g2)"
      by blast
    with Suc res g1 show ?thesis by simp
  qed
  with ih res show ?case by simp
qed

lemma compare_loop_ok:
  assumes "\<forall>p \<in> set ps. set [fst p, snd p, refprot, outcome] \<subseteq> set (columns f) \<and>
             complete_cases f (fst p) (snd p) outcome \<noteq> []"
  shows "\<exists>res g'. compare_loop nxt f ps refprot outcome n g = Inr (res, g')"
  using assms
proof (induction ps arbitrary: g)
  case Nil
  then show ?case by simp
next
  case (Cons p ps)
  from Cons.prems have "set [fst p, snd p, refprot, outcome] \<subseteq> set (columns f)"
    and "complete_cases f (fst p) (snd p) outcome \<noteq> []"
    by simp_all
  from compare_one_ok [OF this, of nxt n g] obtain r g1 where
    one: "compare_one nxt f (fst p) (snd p) refprot outcome n g = Inr (r, g1)"
    by blast
  from Cons.prems have "\<forall>p \<in> set ps. set [fst p, snd p, refprot, outcome] \<subseteq> set (columns f) \<and>
             complete_cases f (fst p) (snd p) outcome \<noteq> []"
    by simp
  from Cons.IH [OF this, of g1] obtain rs g' where
    "compare_loop nxt f ps refprot outcome n g1 = Inr (rs, g')"
    by blast
  with one show ?case by simp
qed

lemma draw_numeral:
  "draw nxt m (numeral k) g =
     (case nxt g of (w, g1) \<Rightarrow>
        (case draw nxt m (pred_numeral k) g1 of (idx, g2) \<Rightarrow> (w mod m # idx, g2)))"
  by (simp add: numeral_eq_Suc)

lemma draws_numeral:
  "draws nxt m (numeral k) g =
     (case draw nxt m m g of (idx, g1) \<Rightarrow> idx # draws nxt m (pred_numeral k) g1)"
  by (simp add: numeral_eq_Suc)

lemma demo_ratio_table_built:
  "create_biomarker_ratios ratio_label demo_table [''A''] ''R'' = Inr (demo_ratio_table, [''A_R''])"
  by (simp add: demo_ratio_table_def demo_table_def ratio_label_def)

lemma demo_columns:
  "set [''A'', ''A_R'', ''R'', ''Y1''] \<subseteq> set (columns demo_ratio_table)"
  by (simp add: demo_ratio_table_def demo_table_def add_column_def)

lemma demo_points:
  "points (complete_cases demo_ratio_table ''A'' ''A_R'' ''Y1'') ''A'' ''Y1''
     = [(1, 1), (2, 2), (5, 2), (4, 3)]"
  "points (complete_cases demo_ratio_table ''A'' ''A_R'' ''Y1'') ''A_R'' ''Y1''
     = [(1 / 2, 1), (1 / 2, 2), (1 / 2, 2), (4, 3)]"
  by (simp_all del: not_None_eq add: points_def complete_cases_def demo_ratio_table_def
      demo_table_def add_column_def mk_row_def ratio_val_def)

lemma demo_complete_cases:
  "length (complete_cases demo_ratio_table ''A'' ''A_R'' ''Y1'') = 4"
  "complete_cases demo_ratio_table ''A'' ''A_R'' ''Y1'' \<noteq> []"
proof -
  have "length (points (complete_cases demo_ratio_table ''A'' ''A_R'' ''Y1'') ''A'' ''Y1'') = 4"
    by (simp only: demo_points) simp
  then show "length (complete_cases demo_ratio_table ''A'' ''A_R'' ''Y1'') = 4"
    by simp
  then show "complete_cases demo_ratio_table ''A'' ''A_R'' ''Y1'' \<noteq> []"
    by auto
qed

lemma demo_draws:
  "draws tape 4 2 [0, 4, 8, 0, 4, 2, 0, 6] = [[0, 0, 0, 0], [0, 2, 0, 2]]"
  by (simp add: draws_numeral draw_numeral)

lemma demo_fits:
  "r2 (ols (resample [(1, 1), (2, 2), (5, 2), (4, 3)] [0, 2, 0, 2])) = Some 1"
  "r2 (ols (resample [(1 / 2, 1), (1 / 2, 2), (1 / 2, 2), (4, 3)] [0, 2, 0, 2])) = None"
  by (simp_all add: resample_def ols_def mean_def Let_def power2_eq_square)

lemma demo_ok:
  "\<forall>p \<in> set (zip [''A''] [''A_R'']).
      set [fst p, snd p, ''R'', ''Y1''] \<subseteq> set (columns demo_ratio_table) \<and>
      complete_cases demo_ratio_table (fst p) (snd p) ''Y1'' \<noteq> []"
  using demo_columns demo_complete_cases(2) by simp

text \<open>
  C1.  When the comparison returns, it holds one record per biomarker pair, in order.
  For each pair and each of the \<open>n_iter\<close> iterations, the recorded raw value is the fit
  of the raw points on one list of row positions and the recorded normalized value is
  the fit of the normalized points on that same list, both sets of points being taken
  from the same complete rows.  The list is the resample drawn for that iteration: as
  many row positions as there are complete rows, each below their number.
\<close>

theorem paired_resamples:
  assumes "compare_biomarkers nxt g f biomarkers normalized refprot outcome n = Inr (res, g')"
  shows "length res = length (zip biomarkers normalized) \<and>
    (\<forall>k < length res.
       let b = fst (zip biomarkers normalized ! k);
           bn = snd (zip biomarkers normalized ! k);
           cc = complete_cases f b bn outcome;
           idxs = draws nxt (length cc) n
                    (start_states nxt f (zip biomarkers normalized) outcome n g ! k)
       in c_biomarker (res ! k) = b \<and> c_normalized (res ! k) = bn \<and> cc \<noteq> [] \<and>
          length idxs = n \<and>
          length (boot_raw (res ! k)) = n \<and> length (boot_norm (res ! k)) = n \<and>
          (\<forall>i < n.
             length (idxs ! i) = length cc \<and> (\<forall>j \<in> set (idxs ! i). j < length cc) \<and>
             boot_raw (res ! k) ! i = r2 (ols (resample (points cc b outcome) (idxs ! i))) \<and>
             boot_norm (res ! k) ! i = r2 (ols (resample (points cc bn outcome) (idxs ! i)))))"
proof -
  let ?ps = "zip biomarkers normalized"
  from assms have loop: "compare_loop nxt f ?ps refprot outcome n g = Inr (res, g')"
    by (simp add: compare_biomarkers_def)
  note l = compare_loop_Inr [OF loop]
  have "let b = fst (?ps ! k); bn = snd (?ps ! k);
           cc = complete_cases f b bn outcome;
           idxs = draws nxt (length cc) n (start_states nxt f ?ps outcome n g ! k)
       in c_biomarker (res ! k) = b \<and> c_normalized (res ! k) = bn \<and> cc \<noteq> [] \<and>
          length idxs = n \<and>
          length (boot_raw (res ! k)) = n \<and> length (boot_norm (res ! k)) = n \<and>
          (\<forall>i < n.
             length (idxs ! i) = length cc \<and> (\<forall>j \<in> set (idxs ! i). j < length cc) \<and>
             boot_raw (res ! k) ! i = r2 (ols (resample (points cc b outcome) (idxs ! i))) \<and>
             boot_norm (res ! k) ! i = r2 (ols (resample (points cc bn outcome) (idxs ! i))))"
    if k: "k < length res" for k
  proof -
    let ?b = "fst (?ps ! k)" and ?bn = "snd (?ps ! k)"
    let ?cc = "complete_cases f ?b ?bn outcome"
    let ?g0 = "start_states nxt f ?ps outcome n g ! k"
    let ?idxs = "draws nxt (length ?cc) n ?g0"
    from l k obtain g1 where
      one: "compare_one nxt f ?b ?bn refprot outcome n ?g0 = Inr (res ! k, g1)"
      by auto
    note cc = compare_one_Inr(2) [OF one] and r = compare_one_Inr(3) [OF one]
    have sel: "c_biomarker (res ! k) = ?b" "c_normalized (res ! k) = ?bn"
      "boot_raw (res ! k) = map (\<lambda>idx. r2 (ols (resample (points ?cc ?b outcome) idx))) ?idxs"
      "boot_norm (res ! k) = map (\<lambda>idx. r2 (ols (resample (points ?cc ?bn outcome) idx))) ?idxs"
      by (simp_all add: r)
    have idx: "length (?idxs ! i) = length ?cc \<and> (\<forall>j \<in> set (?idxs ! i). j < length ?cc)"
      if "i < n" for i
    proof -
      from that have "?idxs ! i \<in> set ?idxs" by (intro nth_mem) simp
      from draws_props [OF this] cc show ?thesis by simp
    qed
    from sel cc idx show ?thesis
      unfolding Let_def by simp
  qed
  with l show ?thesis by simp
qed

theorem paired_resamples_witness:
  "\<exists>res g'.
     compare_biomarkers tape [0, 4, 8, 0, 4, 2, 0, 6] demo_ratio_table [''A''] [''A_R'']
       ''R'' ''Y1'' 2 = Inr (res, g') \<and>
     length res = 1 \<and> c_biomarker (res ! 0) = ''A'' \<and> c_normalized (res ! 0) = ''A_R'' \<and>
     boot_raw (res ! 0) ! 1
       = r2 (ols (resample [(1, 1), (2, 2), (5, 2), (4, 3)] [0, 2, 0, 2])) \<and>
     boot_norm (res ! 0) ! 1
       = r2 (ols (resample [(1 / 2, 1), (1 / 2, 2), (1 / 2, 2), (4, 3)] [0, 2, 0, 2])) \<and>
     boot_raw (res ! 0) ! 1 = Some 1 \<and> boot_norm (res ! 0) ! 1 = None"
proof -
  from compare_loop_ok [OF demo_ok, of tape 2 "[0, 4, 8, 0, 4, 2, 0, 6]"]
  obtain res g' where
    run: "compare_biomarkers tape [0, 4, 8, 0, 4, 2, 0, 6] demo_ratio_table [''A''] [''A_R'']
            ''R'' ''Y1'' 2 = Inr (res, g')"
    unfolding compare_biomarkers_def by blast
  note t = paired_resamples [OF run]
  from t have len: "length res = 1" by simp
  from t len have
    "let b = fst (zip [''A''] [''A_R''] ! 0);
           bn = snd (zip [''A''] [''A_R''] ! 0);
           cc = complete_cases demo_ratio_table b bn ''Y1'';
           idxs = draws tape (length cc) 2
                    (start_states tape demo_ratio_table (zip [''A''] [''A_R'']) ''Y1'' 2
                       [0, 4, 8, 0, 4, 2, 0, 6] ! 0)
       in c_biomarker (res ! 0) = b \<and> c_normalized (res ! 0) = bn \<and>
          (\<forall>i < 2.
             boot_raw (res ! 0) ! i = r2 (ols (resample (points cc b ''Y1'') (idxs ! i))) \<and>
             boot_norm (res ! 0) ! i = r2 (ols (resample (points cc bn ''Y1'') (idxs ! i))))"
    by (simp add: Let_def)
  then have names: "c_biomarker (res ! 0) = ''A''" "c_normalized (res ! 0) = ''A_R''"
    and boots: "\<forall>i < 2.
       boot_raw (res ! 0) ! i
         = r2 (ols (resample [(1, 1), (2, 2), (5, 2), (4, 3)] ([[0, 0, 0, 0], [0, 2, 0, 2]] ! i))) \<and>
       boot_norm (res ! 0) ! i
         = r2 (ols (resample [(1 / 2, 1), (1 / 2, 2), (1 / 2, 2), (4, 3)] ([[0, 0, 0, 0], [0, 2, 0, 2]] ! i)))"
    by (simp_all add: Let_def demo_points demo_complete_cases demo_draws)
  from boots have b1:
    "boot_raw (res ! 0) ! 1 = r2 (ols (resample [(1, 1), (2, 2), (5, 2), (4, 3)] [0, 2, 0, 2]))"
    "boot_norm (res ! 0) ! 1
       = r2 (ols (resample [(1 / 2, 1), (1 / 2, 2), (1 / 2, 2), (4, 3)] [0, 2, 0, 2]))"
    by simp_all
  from run len names b1 demo_fits show ?thesis by simp
qed

end
